theory Spec2Isabelle
  imports Complex_Main "HOL-Library.Multiset"
begin

section \<open>Request data\<close>

text \<open>
  A parsed JSON value, as a request body or a query object carries it.  An object is the
  list of its own properties in order.
\<close>

datatype json =
    JNull
  | JBool bool
  | JNum rat
  | JStr string
  | JArr "json list"
  | JObj "(string \<times> json) list"

datatype http_method = GET | POST | PUT | PATCH | DELETE

text \<open>
  A request as the recipe router sees it: the method, the path below the mount point
  as the list of its segments, not decoded (\<open>/favorites\<close> is \<open>[''favorites'']\<close>,
  the mount point itself is \<open>[]\<close>; a slash at the end adds no segment), the parsed
  body and the parsed query.
\<close>

record request =
  req_method :: http_method
  req_path :: "string list"
  req_body :: json
  req_query :: json

section \<open>The recipe router (\<open>src/routes/recipeRouter.js\<close>)\<close>

text \<open>The schemas the router imports and hands to \<open>validateBody\<close> and \<open>validateQuery\<close>.\<close>

datatype schema =
    Schema_createRecipeSchema
  | Schema_addToFavorites
  | Schema_paginationSchema

text \<open>
  The middlewares the router installs: \<open>auth\<close>, \<open>uploadRecipeImage.single(field)\<close>,
  \<open>validateBody(schema)\<close> and \<open>validateQuery(schema)\<close>.
\<close>

datatype middleware =
    auth
  | uploadRecipeImage_single string
  | validateBody schema
  | validateQuery schema

text \<open>The handlers of \<open>recipeController\<close> the router refers to.\<close>

datatype controller =
    recipeController_createRecipe
  | recipeController_addToFavorites
  | recipeController_deleteFromFavorites
  | recipeController_getFavorites
  | recipeController_deleteRecipe
  | recipeController_getRecipes
  | recipeController_getPopularRecipes
  | recipeController_getUserRecipes
  | recipeController_getRecipeById

text \<open>A route path is a list of segments: a literal or a named parameter (\<open>:recipeId\<close>).\<close>

datatype segment = Lit string | Param string

record route =
  verb :: http_method
  path :: "segment list"
  middlewares :: "middleware list"
  handler :: controller

text \<open>The nine registrations of the router, in the order of the source file.\<close>

definition recipeRouter :: "route list" where
  "recipeRouter =
    [ \<lparr>verb = POST, path = [],
        middlewares = [auth, uploadRecipeImage_single ''thumb'',
                       validateBody Schema_createRecipeSchema],
        handler = recipeController_createRecipe\<rparr>,
      \<lparr>verb = POST, path = [Lit ''favorites''],
        middlewares = [auth, validateBody Schema_addToFavorites],
        handler = recipeController_addToFavorites\<rparr>,
      \<lparr>verb = DELETE, path = [Lit ''favorites''],
        middlewares = [auth, validateBody Schema_addToFavorites],
        handler = recipeController_deleteFromFavorites\<rparr>,
      \<lparr>verb = GET, path = [Lit ''favorites''],
        middlewares = [auth, validateQuery Schema_paginationSchema],
        handler = recipeController_getFavorites\<rparr>,
      \<lparr>verb = DELETE, path = [Param ''recipeId''],
        middlewares = [auth],
        handler = recipeController_deleteRecipe\<rparr>,
      \<lparr>verb = GET, path = [],
        middlewares = [],
        handler = recipeController_getRecipes\<rparr>,
      \<lparr>verb = GET, path = [Lit ''popular''],
        middlewares = [],
        handler = recipeController_getPopularRecipes\<rparr>,
      \<lparr>verb = GET, path = [Lit ''own''],
        middlewares = [auth],
        handler = recipeController_getUserRecipes\<rparr>,
      \<lparr>verb = GET, path = [Param ''recipeId''],
        middlewares = [],
        handler = recipeController_getRecipeById\<rparr> ]"

subsection \<open>Dispatch\<close>

text \<open>
  The router is created by \<open>express.Router()\<close> with no options, so literal segments
  are compared without regard to the case of ASCII letters, and a parameter takes
  exactly one segment of at least one character.  Matching gives the text each parameter
  captured, as it stands in the path.
\<close>

definition lowerChar :: "char \<Rightarrow> char" where
  "lowerChar c =
     (let n = (of_char c :: nat)
      in if 65 \<le> n \<and> n \<le> 90 then char_of (n + 32) else c)"

definition lowerStr :: "string \<Rightarrow> string" where
  "lowerStr s = map lowerChar s"

fun matchPath :: "segment list \<Rightarrow> string list \<Rightarrow> (string \<times> string) list option" where
  "matchPath [] [] = Some []"
| "matchPath (Lit l # ss) (x # xs) =
     (if lowerStr l = lowerStr x then matchPath ss xs else None)"
| "matchPath (Param p # ss) (x # xs) =
     (if x = [] then None
      else (case matchPath ss xs of None \<Rightarrow> None | Some ps \<Rightarrow> Some ((p, x) # ps)))"
| "matchPath _ _ = None"

text \<open>
  What the middlewares decide is not part of the router: it is a parameter.  Each field
  says whether the middleware lets the request pass; a schema check is one function,
  applied to the body by \<open>validateBody\<close> and to the query by \<open>validateQuery\<close>.  The
  last field is the platform's \<open>decodeURIComponent\<close> on a text with percent escapes,
  \<open>None\<close> where it throws.
\<close>

record env =
  authPasses :: "request \<Rightarrow> bool"
  uploadPasses :: "string \<Rightarrow> request \<Rightarrow> bool"
  schemaAccepts :: "schema \<Rightarrow> json \<Rightarrow> bool"
  decodeURIComponent :: "string \<Rightarrow> string option"

fun passes :: "env \<Rightarrow> middleware \<Rightarrow> request \<Rightarrow> bool" where
  "passes e auth rq = authPasses e rq"
| "passes e (uploadRecipeImage_single f) rq = uploadPasses e f rq"
| "passes e (validateBody s) rq = schemaAccepts e s (req_body rq)"
| "passes e (validateQuery s) rq = schemaAccepts e s (req_query rq)"

text \<open>
  The value of a path parameter is the captured text decoded; a text without a percent
  sign decodes to itself.
\<close>

definition decode_param :: "env \<Rightarrow> string \<Rightarrow> string option" where
  "decode_param e v = (if CHR ''%'' \<in> set v then decodeURIComponent e v else Some v)"

fun decodeParams :: "env \<Rightarrow> (string \<times> string) list \<Rightarrow> (string \<times> string) list option" where
  "decodeParams e [] = Some []"
| "decodeParams e ((k, v) # ps) =
     (case decode_param e v of
        None \<Rightarrow> None
      | Some d \<Rightarrow> map_option ((#) (k, d)) (decodeParams e ps))"

text \<open>
  The outcome of a request: a controller is reached with the path parameters, a
  middleware ends the request with an error, a parameter cannot be decoded, or no route
  of the router matches.
\<close>

datatype outcome =
    Handled controller "(string \<times> string) list"
  | Rejected middleware
  | DecodeFailed
  | NoRoute

fun runStack :: "env \<Rightarrow> request \<Rightarrow> middleware list \<Rightarrow> controller \<Rightarrow> (string \<times> string) list
                 \<Rightarrow> outcome" where
  "runStack e rq [] h ps = Handled h ps"
| "runStack e rq (m # ms) h ps =
     (if passes e m rq then runStack e rq ms h ps else Rejected m)"

text \<open>
  Routes are tried in registration order.  A route whose path matches has its parameters
  decoded, and a failure there ends the request; then the method is compared, and the
  first route that matches in both runs its middlewares and its controller.
\<close>

fun dispatch :: "env \<Rightarrow> route list \<Rightarrow> request \<Rightarrow> outcome" where
  "dispatch e [] rq = NoRoute"
| "dispatch e (rt # rts) rq =
     (case matchPath (path rt) (req_path rq) of
        None \<Rightarrow> dispatch e rts rq
      | Some captured \<Rightarrow>
          (case decodeParams e captured of
             None \<Rightarrow> DecodeFailed
           | Some ps \<Rightarrow>
               if verb rt = req_method rq
               then runStack e rq (middlewares rt) (handler rt) ps
               else dispatch e rts rq))"

text \<open>The first registration for a method and a path, with its position in the router.\<close>

fun routeFor :: "http_method \<Rightarrow> segment list \<Rightarrow> route list \<Rightarrow> (nat \<times> route) option" where
  "routeFor m p [] = None"
| "routeFor m p (rt # rts) =
     (if verb rt = m \<and> path rt = p then Some (0, rt)
      else map_option (\<lambda>(i, r). (Suc i, r)) (routeFor m p rts))"

definition usesAuth :: "route \<Rightarrow> bool" where
  "usesAuth rt = (auth \<in> set (middlewares rt))"

definition authFirst :: "route \<Rightarrow> bool" where
  "authFirst rt = (case middlewares rt of [] \<Rightarrow> False | m # _ \<Rightarrow> m = auth)"

text \<open>The schemas a route checks the request body against, and the check as a whole.\<close>

fun bodyValidators :: "middleware list \<Rightarrow> schema list" where
  "bodyValidators [] = []"
| "bodyValidators (validateBody s # ms) = s # bodyValidators ms"
| "bodyValidators (_ # ms) = bodyValidators ms"

fun acceptsAll :: "env \<Rightarrow> schema list \<Rightarrow> json \<Rightarrow> bool" where
  "acceptsAll e [] b = True"
| "acceptsAll e (s # ss) b = (schemaAccepts e s b \<and> acceptsAll e ss b)"

definition bodyValidation :: "env \<Rightarrow> route \<Rightarrow> json \<Rightarrow> bool" where
  "bodyValidation e rt b = acceptsAll e (bodyValidators (middlewares rt)) b"

subsection \<open>The endpoint table of the specification\<close>

text \<open>
  Section 6 of the specification as it is written: method, path, whether authentication
  is required, and the success status.
\<close>

definition spec_endpoints :: "(http_method \<times> string \<times> bool \<times> nat) list" where
  "spec_endpoints =
    [ (POST, ''/recipes'', True, 201),
      (POST, ''/recipes/favorites'', True, 200),
      (DELETE, ''/recipes/favorites'', True, 200),
      (GET, ''/recipes/favorites'', True, 200),
      (DELETE, ''/recipes/:id'', True, 200),
      (GET, ''/recipes'', False, 200),
      (GET, ''/recipes/popular'', False, 200),
      (GET, ''/recipes/own'', True, 200),
      (GET, ''/recipes/:id'', False, 200) ]"

text \<open>
  A path of the router written the way the table writes it: below \<open>/recipes\<close>, with the
  one path parameter called \<open>:id\<close>.
\<close>

fun specSegment :: "segment \<Rightarrow> string" where
  "specSegment (Lit s) = ''/'' @ s"
| "specSegment (Param _) = ''/:id''"

definition specPath :: "segment list \<Rightarrow> string" where
  "specPath p = ''/recipes'' @ concat (map specSegment p)"

text \<open>
  Sample environments and sample requests, for concrete instances.  The sample decoder
  knows one escaped text, \<open>%66avorites\<close>, in which \<open>%66\<close> stands for the letter f.
\<close>

definition sampleDecoder :: "string \<Rightarrow> string option" where
  "sampleDecoder v = (if v = ''%66avorites'' then Some ''favorites'' else None)"

definition openEnv :: env where
  "openEnv = \<lparr>authPasses = (\<lambda>_. True), uploadPasses = (\<lambda>_ _. True),
              schemaAccepts = (\<lambda>_ _. True), decodeURIComponent = sampleDecoder\<rparr>"

definition closedEnv :: env where
  "closedEnv = \<lparr>authPasses = (\<lambda>_. False), uploadPasses = (\<lambda>_ _. True),
                schemaAccepts = (\<lambda>_ _. True), decodeURIComponent = sampleDecoder\<rparr>"

definition getRequest :: "string list \<Rightarrow> request" where
  "getRequest p = \<lparr>req_method = GET, req_path = p, req_body = JNull, req_query = JObj []\<rparr>"

definition bodyRequest :: "http_method \<Rightarrow> string list \<Rightarrow> json \<Rightarrow> request" where
  "bodyRequest m p b = \<lparr>req_method = m, req_path = p, req_body = b, req_query = JObj []\<rparr>"

section \<open>The category schema (\<open>src/schemas/categorySchema.js\<close>)\<close>

text \<open>
  The fragment of Joi the schema is written in.  \<open>Joi.string()\<close> is a string schema
  with nothing required and no format; \<open>.required()\<close>, \<open>.optional()\<close> and \<open>.uri()\<close>
  set its flags, \<open>.messages(...)\<close> attaches texts to error codes.
\<close>

record joi_string =
  presence_required :: bool
  rule_uri :: bool
  custom_messages :: "(string \<times> string) list"

definition Joi_string :: joi_string where
  "Joi_string = \<lparr>presence_required = False, rule_uri = False, custom_messages = []\<rparr>"

definition required :: "joi_string \<Rightarrow> joi_string" where
  "required s = s\<lparr>presence_required := True\<rparr>"

definition optional :: "joi_string \<Rightarrow> joi_string" where
  "optional s = s\<lparr>presence_required := False\<rparr>"

definition uri :: "joi_string \<Rightarrow> joi_string" where
  "uri s = s\<lparr>rule_uri := True\<rparr>"

definition messages :: "(string \<times> string) list \<Rightarrow> joi_string \<Rightarrow> joi_string" where
  "messages ms s = s\<lparr>custom_messages := custom_messages s @ ms\<rparr>"

text \<open>\<open>Joi.object({...})\<close>: the keys in the order they are written.\<close>

type_synonym joi_object = "(string \<times> joi_string) list"

definition createCategorySchema :: joi_object where
  "createCategorySchema =
    [ (''name'', messages [(''any.required'', ''Category name is required''),
                           (''string.empty'', ''Category name cannot be empty'')]
                  (required Joi_string)),
      (''description'', messages [(''string.empty'', ''Description cannot be empty'')]
                  (optional Joi_string)),
      (''thumb'', messages [(''string.uri'', ''Thumb must be a valid URL''),
                            (''string.empty'', ''Thumb cannot be empty'')]
                  (optional (uri Joi_string))) ]"

text \<open>
  A validation error: the code, the key it is about, and the text the schema attaches
  to the code, if any.
\<close>

record joi_error =
  err_code :: string
  err_key :: string
  err_message :: "string option"

definition joiError :: "joi_string \<Rightarrow> string \<Rightarrow> string \<Rightarrow> joi_error" where
  "joiError s code k =
     \<lparr>err_code = code, err_key = k, err_message = map_of (custom_messages s) code\<rparr>"

text \<open>
  A string schema applied to the value of a key (\<open>None\<close> when the key is absent).  The
  value must be a string; the empty string is refused; the format comes last.  Whether
  a string is a URI is decided by the library and is a parameter here.
\<close>

fun validateString :: "(string \<Rightarrow> bool) \<Rightarrow> joi_string \<Rightarrow> string \<Rightarrow> json option
                       \<Rightarrow> joi_error option" where
  "validateString isUri s k None =
     (if presence_required s then Some (joiError s ''any.required'' k) else None)"
| "validateString isUri s k (Some (JStr v)) =
     (if v = [] then Some (joiError s ''string.empty'' k)
      else if rule_uri s \<and> \<not> isUri v then Some (joiError s ''string.uri'' k)
      else None)"
| "validateString isUri s k (Some _) = Some (joiError s ''string.base'' k)"

text \<open>The keys of the schema are checked in order and the first error is reported.\<close>

fun validateKeys :: "(string \<Rightarrow> bool) \<Rightarrow> joi_object \<Rightarrow> (string \<times> json) list
                     \<Rightarrow> joi_error option" where
  "validateKeys isUri [] obj = None"
| "validateKeys isUri ((k, s) # ks) obj =
     (case validateString isUri s k (map_of obj k) of
        Some err \<Rightarrow> Some err
      | None \<Rightarrow> validateKeys isUri ks obj)"

text \<open>
  The schema applied to the properties of a payload object, with the default options:
  after the keys of the schema, a key the schema does not name is an error.
\<close>

definition validate :: "(string \<Rightarrow> bool) \<Rightarrow> joi_object \<Rightarrow> (string \<times> json) list
                        \<Rightarrow> joi_error option" where
  "validate isUri sch obj =
     (case validateKeys isUri sch obj of
        Some err \<Rightarrow> Some err
      | None \<Rightarrow>
          (case find (\<lambda>k. k \<notin> set (map fst sch)) (map fst obj) of
             Some k \<Rightarrow> Some \<lparr>err_code = ''object.unknown'', err_key = k, err_message = None\<rparr>
           | None \<Rightarrow> None))"

text \<open>
  The condition as the specification words it: a non-empty string \<open>name\<close>; an optional
  \<open>description\<close> that is a non-empty string when present; an optional \<open>thumb\<close> that is
  a non-empty string in URI format when present.
\<close>

fun nonEmptyString :: "json \<Rightarrow> bool" where
  "nonEmptyString (JStr v) = (v \<noteq> [])"
| "nonEmptyString _ = False"

fun uriString :: "(string \<Rightarrow> bool) \<Rightarrow> json \<Rightarrow> bool" where
  "uriString isUri (JStr v) = (v \<noteq> [] \<and> isUri v)"
| "uriString isUri _ = False"

definition specCategoryValid :: "(string \<Rightarrow> bool) \<Rightarrow> (string \<times> json) list \<Rightarrow> bool" where
  "specCategoryValid isUri obj =
     ((case map_of obj ''name'' of None \<Rightarrow> False | Some v \<Rightarrow> nonEmptyString v)
      \<and> (case map_of obj ''description'' of None \<Rightarrow> True | Some v \<Rightarrow> nonEmptyString v)
      \<and> (case map_of obj ''thumb'' of None \<Rightarrow> True | Some v \<Rightarrow> uriString isUri v))"

section \<open>The User model (\<open>src/unnamed/part_000\<close>)\<close>

text \<open>
  A row of the table \<open>user\<close>.  A column that may hold \<open>null\<close> is an option; the two
  columns declared \<open>allowNull: false\<close> are options too, so that refusing \<open>null\<close> is
  something the model does and not something the type assumes.
\<close>

record user =
  user_id :: nat
  user_name :: "string option"
  user_email :: "string option"
  user_password :: "string option"
  user_avatar :: "string option"
  user_token :: "string option"
  user_refreshToken :: "string option"
  user_verify :: bool
  user_verificationToken :: "string option"

text \<open>
  What the declaration of a string column says: whether \<open>null\<close> is allowed, whether the
  column is unique, and the pattern of \<open>validate: { is: ... }\<close>, if any.
\<close>

record column =
  allowNull :: bool
  unique :: bool
  validate_is :: "(string \<Rightarrow> bool) option"

definition plainColumn :: column where
  "plainColumn = \<lparr>allowNull = True, unique = False, validate_is = None\<rparr>"

text \<open>
  The declarations of \<open>email\<close> and \<open>password\<close>.  The pattern \<open>emailRegexp\<close> is
  imported from \<open>constants/auth.js\<close>; it is a parameter here.
\<close>

definition emailColumn :: "(string \<Rightarrow> bool) \<Rightarrow> column" where
  "emailColumn emailRegexp =
     \<lparr>allowNull = False, unique = True, validate_is = Some emailRegexp\<rparr>"

definition passwordColumn :: column where
  "passwordColumn = \<lparr>allowNull = False, unique = False, validate_is = None\<rparr>"

datatype db_error =
    NotNullViolation string
  | ValidationFailed string
  | UniqueConstraintError string

text \<open>
  The checks on a value for a column.  Validation refuses \<open>null\<close> where the column does
  not allow it and a string that does not match the pattern; the unique index of the
  table refuses a value another row holds in that column.
\<close>

fun checkNotNull :: "column \<Rightarrow> string \<Rightarrow> string option \<Rightarrow> db_error option" where
  "checkNotNull c k None = (if allowNull c then None else Some (NotNullViolation k))"
| "checkNotNull c k (Some v) = None"

fun checkPattern :: "column \<Rightarrow> string \<Rightarrow> string option \<Rightarrow> db_error option" where
  "checkPattern c k None = None"
| "checkPattern c k (Some v) =
     (case validate_is c of
        None \<Rightarrow> None
      | Some re \<Rightarrow> if re v then None else Some (ValidationFailed k))"

fun checkUnique :: "column \<Rightarrow> string \<Rightarrow> string option list \<Rightarrow> string option
                    \<Rightarrow> db_error option" where
  "checkUnique c k others None = None"
| "checkUnique c k others (Some v) =
     (if unique c \<and> Some v \<in> set others then Some (UniqueConstraintError k) else None)"

fun firstError :: "db_error option list \<Rightarrow> db_error option" where
  "firstError [] = None"
| "firstError (Some err # _) = Some err"
| "firstError (None # es) = firstError es"

text \<open>The table: its rows and the counter behind \<open>autoIncrement\<close>.\<close>

record user_table =
  user_rows :: "user list"
  user_seq :: nat

definition emptyUsers :: user_table where
  "emptyUsers = \<lparr>user_rows = [], user_seq = 1\<rparr>"

text \<open>
  The values given to \<open>User.create\<close>.  \<open>token\<close> and \<open>refreshToken\<close> default to
  \<open>null\<close> and \<open>verify\<close> to \<open>false\<close>; a field left out is \<open>None\<close>.
\<close>

record user_values =
  val_name :: "string option"
  val_email :: "string option"
  val_password :: "string option"
  val_avatar :: "string option"
  val_token :: "string option"
  val_refreshToken :: "string option"
  val_verify :: "bool option"
  val_verificationToken :: "string option"

text \<open>
  \<open>User.create(values)\<close> as the declarations make it behave.  The values are validated
  first, the \<open>null\<close> checks of all columns before the patterns, and a refusal there
  leaves the table as it is.  Then the row is inserted under the next id; if the unique
  index refuses it, the id is spent all the same.  The result comes with the table after
  the call.  The services that call the model are not among the sources; inserting and
  updating are modelled at the model itself, with validation on, which is the default of
  \<open>create\<close> and \<open>update\<close>.
\<close>

definition newRow :: "user_table \<Rightarrow> user_values \<Rightarrow> user" where
  "newRow t vals =
     \<lparr>user_id = user_seq t,
      user_name = val_name vals,
      user_email = val_email vals,
      user_password = val_password vals,
      user_avatar = val_avatar vals,
      user_token = val_token vals,
      user_refreshToken = val_refreshToken vals,
      user_verify = (case val_verify vals of None \<Rightarrow> False | Some b \<Rightarrow> b),
      user_verificationToken = val_verificationToken vals\<rparr>"

definition validateCreate :: "(string \<Rightarrow> bool) \<Rightarrow> user_values \<Rightarrow> db_error option" where
  "validateCreate emailRegexp vals =
     firstError
       [checkNotNull (emailColumn emailRegexp) ''email'' (val_email vals),
        checkNotNull passwordColumn ''password'' (val_password vals),
        checkPattern (emailColumn emailRegexp) ''email'' (val_email vals),
        checkPattern passwordColumn ''password'' (val_password vals)]"

definition constraintsCreate :: "(string \<Rightarrow> bool) \<Rightarrow> user_table \<Rightarrow> user_values
                                  \<Rightarrow> db_error option" where
  "constraintsCreate emailRegexp t vals =
     firstError
       [checkUnique (emailColumn emailRegexp) ''email''
          (map user_email (user_rows t)) (val_email vals),
        checkUnique passwordColumn ''password''
          (map user_password (user_rows t)) (val_password vals)]"

definition User_create :: "(string \<Rightarrow> bool) \<Rightarrow> user_table \<Rightarrow> user_values
                            \<Rightarrow> (db_error + user) \<times> user_table" where
  "User_create emailRegexp t vals =
     (case validateCreate emailRegexp vals of
        Some err \<Rightarrow> (Inl err, t)
      | None \<Rightarrow>
          (case constraintsCreate emailRegexp t vals of
             Some err \<Rightarrow> (Inl err, t\<lparr>user_seq := Suc (user_seq t)\<rparr>)
           | None \<Rightarrow>
               (Inr (newRow t vals),
                \<lparr>user_rows = user_rows t @ [newRow t vals],
                 user_seq = Suc (user_seq t)\<rparr>)))"

text \<open>
  An update of the rows with a given id names the columns it sets: \<open>None\<close> leaves a
  column as it is, \<open>Some v\<close> sets it to \<open>v\<close> (which may be \<open>null\<close>).  Only the
  columns that are set are validated; then the rows are changed, unless the unique index
  refuses the new value because another row holds it.  The result is the number of rows
  changed, which is 0 when no row has the id.
\<close>

record user_patch =
  set_name :: "string option option"
  set_email :: "string option option"
  set_password :: "string option option"
  set_avatar :: "string option option"
  set_token :: "string option option"
  set_refreshToken :: "string option option"
  set_verify :: "bool option"
  set_verificationToken :: "string option option"

definition patched :: "'a option \<Rightarrow> 'a \<Rightarrow> 'a" where
  "patched p old = (case p of None \<Rightarrow> old | Some v \<Rightarrow> v)"

definition applyPatch :: "user_patch \<Rightarrow> user \<Rightarrow> user" where
  "applyPatch p u =
     \<lparr>user_id = user_id u,
      user_name = patched (set_name p) (user_name u),
      user_email = patched (set_email p) (user_email u),
      user_password = patched (set_password p) (user_password u),
      user_avatar = patched (set_avatar p) (user_avatar u),
      user_token = patched (set_token p) (user_token u),
      user_refreshToken = patched (set_refreshToken p) (user_refreshToken u),
      user_verify = patched (set_verify p) (user_verify u),
      user_verificationToken = patched (set_verificationToken p) (user_verificationToken u)\<rparr>"

definition whenSet :: "('a \<Rightarrow> db_error option) \<Rightarrow> 'a option \<Rightarrow> db_error option" where
  "whenSet chk p = (case p of None \<Rightarrow> None | Some v \<Rightarrow> chk v)"

definition validateUpdate :: "(string \<Rightarrow> bool) \<Rightarrow> user_patch \<Rightarrow> db_error option" where
  "validateUpdate emailRegexp p =
     firstError
       [whenSet (checkNotNull (emailColumn emailRegexp) ''email'') (set_email p),
        whenSet (checkNotNull passwordColumn ''password'') (set_password p),
        whenSet (checkPattern (emailColumn emailRegexp) ''email'') (set_email p),
        whenSet (checkPattern passwordColumn ''password'') (set_password p)]"

definition constraintsUpdate :: "(string \<Rightarrow> bool) \<Rightarrow> user_table \<Rightarrow> nat \<Rightarrow> user_patch
                                  \<Rightarrow> db_error option" where
  "constraintsUpdate emailRegexp t i p =
     firstError
       [whenSet (checkUnique (emailColumn emailRegexp) ''email''
                   (map user_email (filter (\<lambda>u. user_id u \<noteq> i) (user_rows t))))
          (set_email p),
        whenSet (checkUnique passwordColumn ''password''
                   (map user_password (filter (\<lambda>u. user_id u \<noteq> i) (user_rows t))))
          (set_password p)]"

definition User_update :: "(string \<Rightarrow> bool) \<Rightarrow> user_table \<Rightarrow> nat \<Rightarrow> user_patch
                            \<Rightarrow> (db_error + nat) \<times> user_table" where
  "User_update emailRegexp t i p =
     (case validateUpdate emailRegexp p of
        Some err \<Rightarrow> (Inl err, t)
      | None \<Rightarrow>
          if filter (\<lambda>u. user_id u = i) (user_rows t) = [] then (Inr 0, t)
          else
            (case constraintsUpdate emailRegexp t i p of
               Some err \<Rightarrow> (Inl err, t)
             | None \<Rightarrow>
                 (Inr (length (filter (\<lambda>u. user_id u = i) (user_rows t))),
                  t\<lparr>user_rows :=
                       map (\<lambda>u. if user_id u = i then applyPatch p u else u)
                         (user_rows t)\<rparr>)))"

definition User_destroy :: "user_table \<Rightarrow> nat \<Rightarrow> user_table" where
  "User_destroy t i = t\<lparr>user_rows := filter (\<lambda>u. user_id u \<noteq> i) (user_rows t)\<rparr>"

text \<open>
  The invariant of the table: every row has an email, the email matches the pattern, no
  two rows share an email; and, for the primary key, ids are distinct and below the
  counter.
\<close>

definition emailsValid :: "(string \<Rightarrow> bool) \<Rightarrow> user list \<Rightarrow> bool" where
  "emailsValid emailRegexp us =
     list_all (\<lambda>u. case user_email u of None \<Rightarrow> False | Some a \<Rightarrow> emailRegexp a) us"

definition usersInvariant :: "(string \<Rightarrow> bool) \<Rightarrow> user_table \<Rightarrow> bool" where
  "usersInvariant emailRegexp t =
     (emailsValid emailRegexp (user_rows t)
      \<and> distinct (map user_email (user_rows t))
      \<and> distinct (map user_id (user_rows t))
      \<and> list_all (\<lambda>u. user_id u < user_seq t) (user_rows t))"

text \<open>The operations on the table, and the tables they lead to from the empty one.\<close>

datatype user_op =
    Create user_values
  | Update nat user_patch
  | Destroy nat

fun applyUserOp :: "(string \<Rightarrow> bool) \<Rightarrow> user_table \<Rightarrow> user_op \<Rightarrow> user_table" where
  "applyUserOp re t (Create vals) = snd (User_create re t vals)"
| "applyUserOp re t (Update i p) = snd (User_update re t i p)"
| "applyUserOp re t (Destroy i) = User_destroy t i"

definition runUserOps :: "(string \<Rightarrow> bool) \<Rightarrow> user_op list \<Rightarrow> user_table" where
  "runUserOps re ops = foldl (applyUserOp re) emptyUsers ops"

text \<open>A sample pattern and sample values, for concrete instances.\<close>

definition containsAt :: "string \<Rightarrow> bool" where
  "containsAt s = (CHR ''@'' \<in> set s)"

definition newUser :: "string option \<Rightarrow> string option \<Rightarrow> user_values" where
  "newUser e p =
     \<lparr>val_name = None, val_email = e, val_password = p, val_avatar = None,
      val_token = None, val_refreshToken = None, val_verify = None,
      val_verificationToken = None\<rparr>"

definition emailPatch :: "string option \<Rightarrow> user_patch" where
  "emailPatch e =
     \<lparr>set_name = None, set_email = Some e, set_password = None, set_avatar = None,
      set_token = None, set_refreshToken = None, set_verify = None,
      set_verificationToken = None\<rparr>"

definition storedUser :: "nat \<Rightarrow> string \<Rightarrow> string \<Rightarrow> user" where
  "storedUser i e p =
     \<lparr>user_id = i, user_name = None, user_email = Some e, user_password = Some p,
      user_avatar = None, user_token = None, user_refreshToken = None,
      user_verify = False, user_verificationToken = None\<rparr>"

section \<open>Recipes and favorites\<close>

text \<open>
  Modelled from the spec: the data model of section 3.  The models \<open>Recipe\<close> and
  \<open>Favorite\<close>, the controllers and the services behind the router are not among the
  sources.  A recipe is named by its id; a favorite is the pair of a user and a recipe
  with the time at which it was added.
\<close>

record ingredient =
  ingredientId :: string
  quantity :: string

record recipe =
  recipe_id :: string
  recipe_title :: string
  recipe_description :: string
  recipe_category :: string
  recipe_area :: string
  recipe_time :: nat
  recipe_ingredients :: "ingredient list"
  recipe_instructions :: string
  recipe_thumbnailUrl :: "string option"
  recipe_ownerId :: nat

record favorite =
  fav_userId :: nat
  fav_recipeId :: string
  favoritedAt :: nat

record store =
  store_users :: user_table
  store_recipes :: "recipe list"
  store_favorites :: "favorite list"

text \<open>Modelled from the spec: the error taxonomy of section 7.\<close>

datatype error =
    BadRequest
  | Unauthorized
  | Forbidden
  | NotFound
  | Conflict
  | InternalError

definition recipeExists :: "store \<Rightarrow> string \<Rightarrow> bool" where
  "recipeExists st r = (r \<in> set (map recipe_id (store_recipes st)))"

definition isFavorite :: "store \<Rightarrow> nat \<Rightarrow> string \<Rightarrow> bool" where
  "isFavorite st u r =
     ((u, r) \<in> set (map (\<lambda>f. (fav_userId f, fav_recipeId f)) (store_favorites st)))"

text \<open>
  Modelled from the spec: the invariant of section 3, ``(userId, recipeId) pairs in
  Favorite are unique''.
\<close>

definition favoritesUnique :: "store \<Rightarrow> bool" where
  "favoritesUnique st =
     distinct (map (\<lambda>f. (fav_userId f, fav_recipeId f)) (store_favorites st))"

subsection \<open>The favorites service\<close>

text \<open>
  Modelled from the spec: \<open>addToFavorites(userId, recipeId)\<close> of section 4.1, which
  ``fails with NotFound if recipe does not exist; fails with Conflict if the pair already
  exists; otherwise creates the pair and returns success''.  The service
  (\<open>recipeController.addToFavorites\<close> and what it calls) is not among the sources.  The
  result comes with the store after the call; \<open>now\<close> is the time of the call.
\<close>

definition addToFavorites :: "nat \<Rightarrow> store \<Rightarrow> nat \<Rightarrow> string \<Rightarrow> (error + unit) \<times> store" where
  "addToFavorites now st u r =
     (if \<not> recipeExists st r then (Inl NotFound, st)
      else if isFavorite st u r then (Inl Conflict, st)
      else (Inr (),
            st\<lparr>store_favorites := store_favorites st @
                 [\<lparr>fav_userId = u, fav_recipeId = r, favoritedAt = now\<rparr>]\<rparr>))"

text \<open>
  Modelled from the spec: \<open>removeFromFavorites(userId, recipeId)\<close> of section 4.1, which
  ``fails with NotFound if recipe does not exist; fails with Conflict [...] if the pair
  does not exist; otherwise deletes the pair''.  The service
  (\<open>recipeController.deleteFromFavorites\<close> and what it calls) is not among the sources.
\<close>

definition removeFromFavorites :: "store \<Rightarrow> nat \<Rightarrow> string \<Rightarrow> (error + unit) \<times> store" where
  "removeFromFavorites st u r =
     (if \<not> recipeExists st r then (Inl NotFound, st)
      else if \<not> isFavorite st u r then (Inl Conflict, st)
      else (Inr (),
            st\<lparr>store_favorites :=
                 filter (\<lambda>f. \<not> (fav_userId f = u \<and> fav_recipeId f = r))
                   (store_favorites st)\<rparr>))"

subsection \<open>Ordering and pages\<close>

text \<open>
  Ordering by a key, largest first.  Rows with equal keys keep the order they had.
\<close>

fun insertDesc :: "('a \<Rightarrow> nat) \<Rightarrow> 'a \<Rightarrow> 'a list \<Rightarrow> 'a list" where
  "insertDesc k x [] = [x]"
| "insertDesc k x (y # ys) =
     (if k y \<le> k x then x # y # ys else y # insertDesc k x ys)"

fun orderByDesc :: "('a \<Rightarrow> nat) \<Rightarrow> 'a list \<Rightarrow> 'a list" where
  "orderByDesc k [] = []"
| "orderByDesc k (x # xs) = insertDesc k x (orderByDesc k xs)"

text \<open>
  Modelled from the spec: ``page/limit-based slicing of an ordered result sequence''
  (glossary), with pages counted from 1.
\<close>

definition paginate :: "nat \<Rightarrow> nat \<Rightarrow> 'a list \<Rightarrow> 'a list" where
  "paginate page limit xs = take limit (drop ((page - 1) * limit) xs)"

text \<open>
  Modelled from the spec: a pagination parameter is unspecified (\<open>None\<close>) or a number;
  it ``defaults'' when unspecified and is a \<open>BadRequest\<close> when ``non-positive or
  non-integer''.  The schema \<open>paginationSchema\<close> is not among the sources.
\<close>

definition isInteger :: "rat \<Rightarrow> bool" where
  "isInteger x = (of_int \<lfloor>x\<rfloor> = x)"

definition pageParam :: "nat \<Rightarrow> rat option \<Rightarrow> error + nat" where
  "pageParam dflt p =
     (case p of
        None \<Rightarrow> Inr dflt
      | Some x \<Rightarrow> if 0 < x \<and> isInteger x then Inr (nat \<lfloor>x\<rfloor>) else Inl BadRequest)"

text \<open>
  The favorites of a user, latest first, each joined with the recipe it names; a
  favorite whose recipe is not stored joins with nothing.
\<close>

definition userFavorites :: "store \<Rightarrow> nat \<Rightarrow> favorite list" where
  "userFavorites st u =
     orderByDesc favoritedAt (filter (\<lambda>f. fav_userId f = u) (store_favorites st))"

fun joinRecipes :: "recipe list \<Rightarrow> favorite list \<Rightarrow> (favorite \<times> recipe) list" where
  "joinRecipes rs [] = []"
| "joinRecipes rs (f # fs) =
     (case find (\<lambda>x. recipe_id x = fav_recipeId f) rs of
        None \<Rightarrow> joinRecipes rs fs
      | Some x \<Rightarrow> (f, x) # joinRecipes rs fs)"

definition favoriteRows :: "store \<Rightarrow> nat \<Rightarrow> (favorite \<times> recipe) list" where
  "favoriteRows st u = joinRecipes (store_recipes st) (userFavorites st u)"

text \<open>
  Modelled from the spec: \<open>listFavorites(userId, page, limit)\<close> of section 4.1, which
  ``returns a page of recipes joined through the favorites relation, ordered by insertion
  (favorited-at) descending by default; page/limit default to 1/10 when unspecified;
  fails with BadRequest on non-positive or non-integer page/limit''.  The service
  (\<open>recipeController.getFavorites\<close> and what it calls) is not among the sources.
\<close>

definition listFavorites :: "store \<Rightarrow> nat \<Rightarrow> rat option \<Rightarrow> rat option \<Rightarrow> error + recipe list" where
  "listFavorites st u page limit =
     (case pageParam 1 page of
        Inl e \<Rightarrow> Inl e
      | Inr p \<Rightarrow>
     (case pageParam 10 limit of
        Inl e \<Rightarrow> Inl e
      | Inr l \<Rightarrow> Inr (map snd (paginate p l (favoriteRows st u)))))"

text \<open>
  Modelled from the spec: \<open>listPopularRecipes()\<close> of section 4.2, which ``returns recipes
  ranked by favorite count descending''; among recipes with the same count the stored
  order is kept.  The service (\<open>recipeController.getPopularRecipes\<close> and what it calls)
  is not among the sources.
\<close>

definition favoriteCount :: "store \<Rightarrow> recipe \<Rightarrow> nat" where
  "favoriteCount st x =
     length (filter (\<lambda>f. fav_recipeId f = recipe_id x) (store_favorites st))"

definition listPopularRecipes :: "store \<Rightarrow> recipe list" where
  "listPopularRecipes st = orderByDesc (favoriteCount st) (store_recipes st)"

text \<open>Sample recipes, favorites and stores, for concrete instances.\<close>

definition sampleRecipe :: "string \<Rightarrow> recipe" where
  "sampleRecipe r =
     \<lparr>recipe_id = r, recipe_title = r, recipe_description = [], recipe_category = [],
      recipe_area = [], recipe_time = 30, recipe_ingredients = [],
      recipe_instructions = [], recipe_thumbnailUrl = None, recipe_ownerId = 1\<rparr>"

definition fav :: "nat \<Rightarrow> string \<Rightarrow> nat \<Rightarrow> favorite" where
  "fav u r t = \<lparr>fav_userId = u, fav_recipeId = r, favoritedAt = t\<rparr>"

definition sampleStore :: "string list \<Rightarrow> favorite list \<Rightarrow> store" where
  "sampleStore rs fs =
     \<lparr>store_users = emptyUsers, store_recipes = map sampleRecipe rs, store_favorites = fs\<rparr>"

text \<open>A store in which user 1 has twelve favorites, added at times 1 to 12.\<close>

definition recipeName :: "nat \<Rightarrow> string" where
  "recipeName n = replicate n (CHR ''r'')"

definition twelveFavorites :: store where
  "twelveFavorites =
     sampleStore (map recipeName [1..<13]) (map (\<lambda>n. fav 1 (recipeName n) n) [1..<13])"

section \<open>Properties of the router\<close>

lemma lowerStr_literals:
  "lowerStr ''favorites'' = ''favorites''"
  "lowerStr ''popular'' = ''popular''"
  "lowerStr ''own'' = ''own''"
  by code_simp+

lemma decode_param_middlewares:
  "decode_param (e\<lparr>authPasses := a, uploadPasses := b, schemaAccepts := c\<rparr>) v
     = decode_param e v"
  by (simp add: decode_param_def)

lemma decode_param_literals:
  "decode_param e ''favorites'' = Some ''favorites''"
  "decode_param e ''popular'' = Some ''popular''"
  "decode_param e ''own'' = Some ''own''"
  by (simp_all add: decode_param_def)

lemma dispatch_protected:
  assumes "dispatch e recipeRouter rq = Handled h ps"
    and "h \<in> {recipeController_createRecipe, recipeController_addToFavorites,
              recipeController_deleteFromFavorites, recipeController_getFavorites,
              recipeController_deleteRecipe, recipeController_getUserRecipes}"
  shows "authPasses e rq"
  using assms
  by (cases "req_method rq"; cases "req_path rq"; cases "tl (req_path rq)";
      cases "hd (req_path rq) = []"; cases "decode_param e (hd (req_path rq))")
     (auto simp: recipeRouter_def split: if_splits)

lemma dispatch_open:
  assumes "dispatch e recipeRouter rq = Handled h ps"
    and "h \<in> {recipeController_getRecipes, recipeController_getPopularRecipes,
              recipeController_getRecipeById}"
  shows "dispatch (e\<lparr>authPasses := a, uploadPasses := b, schemaAccepts := c\<rparr>)
           recipeRouter rq = Handled h ps"
  using assms
  by (cases "req_method rq"; cases "req_path rq"; cases "tl (req_path rq)";
      cases "hd (req_path rq) = []"; cases "decode_param e (hd (req_path rq))")
     (auto simp: recipeRouter_def decode_param_middlewares split: if_splits)

lemma dispatch_getRecipeById_segment:
  assumes "dispatch e recipeRouter rq = Handled recipeController_getRecipeById ps"
  shows "\<exists>x d. req_method rq = GET \<and> req_path rq = [x] \<and> decode_param e x = Some d
             \<and> ps = [(''recipeId'', d)]
             \<and> lowerStr ''favorites'' \<noteq> lowerStr x
             \<and> lowerStr ''popular'' \<noteq> lowerStr x
             \<and> lowerStr ''own'' \<noteq> lowerStr x"
  using assms
  by (cases "req_method rq"; cases "req_path rq"; cases "tl (req_path rq)";
      cases "hd (req_path rq) = []"; cases "decode_param e (hd (req_path rq))")
     (auto simp: recipeRouter_def split: if_splits)

lemma dispatch_getRecipeById:
  assumes "dispatch e recipeRouter rq = Handled recipeController_getRecipeById ps"
  shows "\<exists>x d. req_method rq = GET \<and> req_path rq = [x] \<and> decode_param e x = Some d
             \<and> ps = [(''recipeId'', d)]
             \<and> lowerStr x \<notin> {''favorites'', ''popular'', ''own''}"
  using dispatch_getRecipeById_segment [OF assms] unfolding lowerStr_literals
  by fastforce

lemma dispatch_literal:
  assumes "req_method rq = GET"
  shows "req_path rq = [''favorites''] \<Longrightarrow> dispatch e recipeRouter rq =
           runStack e rq [auth, validateQuery Schema_paginationSchema]
             recipeController_getFavorites []"
    and "req_path rq = [''popular''] \<Longrightarrow> dispatch e recipeRouter rq =
           runStack e rq [] recipeController_getPopularRecipes []"
    and "req_path rq = [''own''] \<Longrightarrow> dispatch e recipeRouter rq =
           runStack e rq [auth] recipeController_getUserRecipes []"
  using assms
  by (simp_all add: recipeRouter_def lowerStr_literals decode_param_literals)

lemma runStack_handler:
  "runStack e rq ms h ps = Handled h' ps' \<Longrightarrow> h' = h"
  by (induction ms) (auto split: if_splits)

lemma decode_param_plain:
  "CHR ''%'' \<notin> set v \<Longrightarrow> decode_param e v = Some v"
  by (simp add: decode_param_def)

text \<open>
  Claim C6.  The router applies the authentication middleware exactly where the table of
  section 6 marks the endpoint as requiring it: route by route, method, path and use of
  \<open>auth\<close> agree with the table; where \<open>auth\<close> is used it is the first middleware of
  the route; a request that reaches the controller of a protected route has passed
  \<open>auth\<close>; and a request that reaches the controller of an unprotected route reaches it
  whatever the middlewares would decide.
\<close>

theorem recipeRouter_auth_as_specified:
  "map (\<lambda>rt. (verb rt, specPath (path rt), usesAuth rt)) recipeRouter
     = map (\<lambda>(m, p, a, s). (m, p, a)) spec_endpoints
   \<and> map authFirst recipeRouter = map usesAuth recipeRouter
   \<and> (dispatch e recipeRouter rq = Handled h ps
        \<and> h \<in> set (map handler (filter usesAuth recipeRouter))
      \<longrightarrow> authPasses e rq)
   \<and> (dispatch e recipeRouter rq = Handled h ps
        \<and> h \<in> set (map handler (filter (\<lambda>rt. \<not> usesAuth rt) recipeRouter))
      \<longrightarrow> dispatch (e\<lparr>authPasses := a, uploadPasses := b, schemaAccepts := c\<rparr>)
            recipeRouter rq = Handled h ps)"
proof -
  have table: "map (\<lambda>rt. (verb rt, specPath (path rt), usesAuth rt)) recipeRouter
     = map (\<lambda>(m, p, a, s). (m, p, a)) spec_endpoints"
    by (simp add: recipeRouter_def spec_endpoints_def specPath_def usesAuth_def)
  have first: "map authFirst recipeRouter = map usesAuth recipeRouter"
    by (simp add: recipeRouter_def authFirst_def usesAuth_def)
  have prot: "set (map handler (filter usesAuth recipeRouter)) =
      {recipeController_createRecipe, recipeController_addToFavorites,
       recipeController_deleteFromFavorites, recipeController_getFavorites,
       recipeController_deleteRecipe, recipeController_getUserRecipes}"
    by (simp add: recipeRouter_def usesAuth_def)
  have unprot: "set (map handler (filter (\<lambda>rt. \<not> usesAuth rt) recipeRouter)) =
      {recipeController_getRecipes, recipeController_getPopularRecipes,
       recipeController_getRecipeById}"
    by (simp add: recipeRouter_def usesAuth_def)
  show ?thesis
    using table first dispatch_protected [of e rq h ps] dispatch_open [where e = e and rq = rq and h = h and ps = ps and a = a and b = b and c = c]
    unfolding prot unprot by blast
qed

theorem recipeRouter_auth_as_specified_witness:
  "dispatch openEnv recipeRouter (bodyRequest POST [''favorites''] JNull)
     = Handled recipeController_addToFavorites []
   \<and> recipeController_addToFavorites \<in> set (map handler (filter usesAuth recipeRouter))
   \<and> authPasses openEnv (bodyRequest POST [''favorites''] JNull)
   \<and> dispatch openEnv recipeRouter (getRequest [''popular''])
     = Handled recipeController_getPopularRecipes []
   \<and> recipeController_getPopularRecipes
       \<in> set (map handler (filter (\<lambda>rt. \<not> usesAuth rt) recipeRouter))
   \<and> dispatch closedEnv recipeRouter (getRequest [''popular''])
     = Handled recipeController_getPopularRecipes []"
proof -
  have a: "dispatch openEnv recipeRouter (bodyRequest POST [''favorites''] JNull)
     = Handled recipeController_addToFavorites []"
    by (simp add: recipeRouter_def bodyRequest_def openEnv_def lowerStr_literals)
  have b: "recipeController_addToFavorites \<in> set (map handler (filter usesAuth recipeRouter))"
    by (simp add: recipeRouter_def usesAuth_def)
  have c: "dispatch openEnv recipeRouter (getRequest [''popular''])
     = Handled recipeController_getPopularRecipes []"
    by (simp add: recipeRouter_def getRequest_def lowerStr_literals decode_param_literals)
  have d: "recipeController_getPopularRecipes
       \<in> set (map handler (filter (\<lambda>rt. \<not> usesAuth rt) recipeRouter))"
    by (simp add: recipeRouter_def usesAuth_def)
  have e: "openEnv\<lparr>authPasses := (\<lambda>_. False), uploadPasses := (\<lambda>_ _. True),
                   schemaAccepts := (\<lambda>_ _. True)\<rparr> = closedEnv"
    by (simp add: openEnv_def closedEnv_def)
  from recipeRouter_auth_as_specified
         [where e = openEnv and rq = "bodyRequest POST [''favorites''] JNull"
            and h = recipeController_addToFavorites and ps = "[]"]
       a b
  have p: "authPasses openEnv (bodyRequest POST [''favorites''] JNull)"
    by blast
  from recipeRouter_auth_as_specified
         [where e = openEnv and rq = "getRequest [''popular'']"
            and h = recipeController_getPopularRecipes and ps = "[]"
            and a = "\<lambda>_. False" and b = "\<lambda>_ _. True" and c = "\<lambda>_ _. True"]
       c d
  have q: "dispatch closedEnv recipeRouter (getRequest [''popular''])
     = Handled recipeController_getPopularRecipes []"
    unfolding e by blast
  from a b p c d q show ?thesis by blast
qed

text \<open>
  Claim C9, as stated, fails in its last clause.  The value of \<open>recipeId\<close> is the path
  segment decoded, and the literal routes are compared with the segment as it stands in
  the path: the request \<open>GET /%66avorites\<close>, in which \<open>%66\<close> is the letter f, matches
  none of the literal routes and reaches \<open>getRecipeById\<close> with \<open>recipeId\<close> equal to
  \<open>favorites\<close>.
\<close>

theorem getRecipeById_escaped_literal_counterexample:
  "dispatch openEnv recipeRouter (getRequest [''%66avorites''])
     = Handled recipeController_getRecipeById [(''recipeId'', ''favorites'')]
   \<and> ''favorites'' \<in> {''favorites'', ''popular'', ''own''}"
  by code_simp

text \<open>
  Claim C9, amended.  \<open>GET /favorites\<close>, \<open>GET /popular\<close> and \<open>GET /own\<close> are
  registered before \<open>GET /:recipeId\<close>; a GET request whose path segment is one of
  these three literals runs the stack of its own route and does not reach
  \<open>getRecipeById\<close>; and whenever \<open>getRecipeById\<close> is reached, the request has exactly
  one path segment, which is none of the three literals, \<open>recipeId\<close> is that segment
  decoded, and \<open>recipeId\<close> is one of the literals only if the segment contains a percent
  escape.
\<close>

theorem literal_routes_before_recipeId:
  "map_option fst (routeFor GET [Lit ''favorites''] recipeRouter) = Some 3
   \<and> map_option fst (routeFor GET [Lit ''popular''] recipeRouter) = Some 6
   \<and> map_option fst (routeFor GET [Lit ''own''] recipeRouter) = Some 7
   \<and> map_option fst (routeFor GET [Param ''recipeId''] recipeRouter) = Some 8
   \<and> (req_method rq = GET \<and> req_path rq = [''favorites''] \<longrightarrow>
        dispatch e recipeRouter rq =
          runStack e rq [auth, validateQuery Schema_paginationSchema]
            recipeController_getFavorites []
        \<and> dispatch e recipeRouter rq \<noteq> Handled recipeController_getRecipeById ps)
   \<and> (req_method rq = GET \<and> req_path rq = [''popular''] \<longrightarrow>
        dispatch e recipeRouter rq = Handled recipeController_getPopularRecipes []
        \<and> dispatch e recipeRouter rq \<noteq> Handled recipeController_getRecipeById ps)
   \<and> (req_method rq = GET \<and> req_path rq = [''own''] \<longrightarrow>
        dispatch e recipeRouter rq = runStack e rq [auth] recipeController_getUserRecipes []
        \<and> dispatch e recipeRouter rq \<noteq> Handled recipeController_getRecipeById ps)
   \<and> (dispatch e recipeRouter rq = Handled recipeController_getRecipeById ps \<longrightarrow>
        (\<exists>x d. req_path rq = [x] \<and> decode_param e x = Some d \<and> ps = [(''recipeId'', d)]
           \<and> x \<notin> {''favorites'', ''popular'', ''own''}
           \<and> lowerStr x \<notin> {''favorites'', ''popular'', ''own''}
           \<and> (CHR ''%'' \<notin> set x \<longrightarrow> d = x)
           \<and> (d \<in> {''favorites'', ''popular'', ''own''} \<longrightarrow> CHR ''%'' \<in> set x)))"
proof -
  have pos: "map_option fst (routeFor GET [Lit ''favorites''] recipeRouter) = Some 3"
    "map_option fst (routeFor GET [Lit ''popular''] recipeRouter) = Some 6"
    "map_option fst (routeFor GET [Lit ''own''] recipeRouter) = Some 7"
    "map_option fst (routeFor GET [Param ''recipeId''] recipeRouter) = Some 8"
    by (simp_all add: recipeRouter_def)
  have byId: "dispatch e recipeRouter rq = Handled recipeController_getRecipeById ps \<longrightarrow>
        (\<exists>x d. req_path rq = [x] \<and> decode_param e x = Some d \<and> ps = [(''recipeId'', d)]
           \<and> x \<notin> {''favorites'', ''popular'', ''own''}
           \<and> lowerStr x \<notin> {''favorites'', ''popular'', ''own''}
           \<and> (CHR ''%'' \<notin> set x \<longrightarrow> d = x)
           \<and> (d \<in> {''favorites'', ''popular'', ''own''} \<longrightarrow> CHR ''%'' \<in> set x))"
  proof
    assume "dispatch e recipeRouter rq = Handled recipeController_getRecipeById ps"
    from dispatch_getRecipeById [OF this]
    obtain x d where x: "req_path rq = [x]" "decode_param e x = Some d"
      "ps = [(''recipeId'', d)]" "lowerStr x \<notin> {''favorites'', ''popular'', ''own''}"
      by blast
    from x(4) have raw: "x \<notin> {''favorites'', ''popular'', ''own''}"
      using lowerStr_literals by auto
    have plain: "CHR ''%'' \<notin> set x \<longrightarrow> d = x"
      using x(2) decode_param_plain [of x e] by auto
    with raw have esc: "d \<in> {''favorites'', ''popular'', ''own''} \<longrightarrow> CHR ''%'' \<in> set x"
      by blast
    from x raw plain esc
    show "\<exists>x d. req_path rq = [x] \<and> decode_param e x = Some d
           \<and> ps = [(''recipeId'', d)]
           \<and> x \<notin> {''favorites'', ''popular'', ''own''}
           \<and> lowerStr x \<notin> {''favorites'', ''popular'', ''own''}
           \<and> (CHR ''%'' \<notin> set x \<longrightarrow> d = x)
           \<and> (d \<in> {''favorites'', ''popular'', ''own''} \<longrightarrow> CHR ''%'' \<in> set x)"
      by blast
  qed
  have lit: "req_method rq = GET \<and> req_path rq = [''favorites''] \<longrightarrow>
        dispatch e recipeRouter rq =
          runStack e rq [auth, validateQuery Schema_paginationSchema]
            recipeController_getFavorites []"
    "req_method rq = GET \<and> req_path rq = [''popular''] \<longrightarrow>
        dispatch e recipeRouter rq = Handled recipeController_getPopularRecipes []"
    "req_method rq = GET \<and> req_path rq = [''own''] \<longrightarrow>
        dispatch e recipeRouter rq = runStack e rq [auth] recipeController_getUserRecipes []"
    using dispatch_literal [of rq e] by simp_all
  have never: "req_path rq = [x] \<and> x \<in> {''favorites'', ''popular'', ''own''} \<longrightarrow>
        dispatch e recipeRouter rq \<noteq> Handled recipeController_getRecipeById ps" for x
    using byId by auto
  have n1: "req_path rq = [''favorites''] \<longrightarrow>
        dispatch e recipeRouter rq \<noteq> Handled recipeController_getRecipeById ps"
    and n2: "req_path rq = [''popular''] \<longrightarrow>
        dispatch e recipeRouter rq \<noteq> Handled recipeController_getRecipeById ps"
    and n3: "req_path rq = [''own''] \<longrightarrow>
        dispatch e recipeRouter rq \<noteq> Handled recipeController_getRecipeById ps"
    using never [of "''favorites''"] never [of "''popular''"] never [of "''own''"]
    by simp_all
  show ?thesis
    using pos byId lit n1 n2 n3 by blast
qed

theorem literal_routes_before_recipeId_witness:
  "dispatch openEnv recipeRouter (getRequest [''favorites''])
     = Handled recipeController_getFavorites []
   \<and> dispatch closedEnv recipeRouter (getRequest [''favorites'']) = Rejected auth
   \<and> dispatch closedEnv recipeRouter (getRequest [''popular''])
     = Handled recipeController_getPopularRecipes []
   \<and> dispatch openEnv recipeRouter (getRequest [''own''])
     = Handled recipeController_getUserRecipes []
   \<and> dispatch closedEnv recipeRouter (getRequest [''42''])
     = Handled recipeController_getRecipeById [(''recipeId'', ''42'')]
   \<and> ''42'' \<notin> {''favorites'', ''popular'', ''own''}
   \<and> dispatch openEnv recipeRouter (getRequest [''%66avorites''])
     = Handled recipeController_getRecipeById [(''recipeId'', ''favorites'')]
   \<and> CHR ''%'' \<in> set ''%66avorites''"
proof -
  have m: "\<And>p. req_method (getRequest p) = GET" "\<And>p. req_path (getRequest p) = p"
    by (simp_all add: getRequest_def)
  have byId: "dispatch closedEnv recipeRouter (getRequest [''42''])
     = Handled recipeController_getRecipeById [(''recipeId'', ''42'')]"
    by code_simp
  have esc: "dispatch openEnv recipeRouter (getRequest [''%66avorites''])
     = Handled recipeController_getRecipeById [(''recipeId'', ''favorites'')]"
    by code_simp
  from literal_routes_before_recipeId
         [of "getRequest [''%66avorites'']" openEnv "[(''recipeId'', ''favorites'')]"] esc
  have pc: "CHR ''%'' \<in> set ''%66avorites''"
    by (auto simp: m)
  from literal_routes_before_recipeId [of "getRequest [''favorites'']" openEnv]
       literal_routes_before_recipeId [of "getRequest [''favorites'']" closedEnv]
       literal_routes_before_recipeId [of "getRequest [''popular'']" closedEnv]
       literal_routes_before_recipeId [of "getRequest [''own'']" openEnv]
       literal_routes_before_recipeId [of "getRequest [''42'']" closedEnv "[(''recipeId'', ''42'')]"]
       byId esc pc
  show ?thesis
    by (simp add: m openEnv_def closedEnv_def)
qed

text \<open>
  Claim C10.  The routes \<open>POST /favorites\<close> and \<open>DELETE /favorites\<close> both validate
  the body against the one schema \<open>addToFavorites\<close>: whatever that schema accepts, the
  body validation of the remove route accepts a body exactly when the body validation of
  the add route does.
\<close>

theorem favorites_routes_share_body_schema:
  "map_option (\<lambda>(i, rt). bodyValidators (middlewares rt))
       (routeFor POST [Lit ''favorites''] recipeRouter) = Some [Schema_addToFavorites]
   \<and> map_option (\<lambda>(i, rt). bodyValidators (middlewares rt))
       (routeFor DELETE [Lit ''favorites''] recipeRouter) = Some [Schema_addToFavorites]
   \<and> map_option (\<lambda>(i, rt). bodyValidation e rt b)
       (routeFor DELETE [Lit ''favorites''] recipeRouter)
     = map_option (\<lambda>(i, rt). bodyValidation e rt b)
       (routeFor POST [Lit ''favorites''] recipeRouter)
   \<and> map_option (\<lambda>(i, rt). bodyValidation e rt b)
       (routeFor POST [Lit ''favorites''] recipeRouter)
     = Some (schemaAccepts e Schema_addToFavorites b)"
  by (simp add: recipeRouter_def bodyValidation_def)

lemma validateString_ok:
  "validateString isUri s k v = None \<longleftrightarrow>
     (case v of None \<Rightarrow> \<not> presence_required s
      | Some j \<Rightarrow> nonEmptyString j \<and> (rule_uri s \<longrightarrow> uriString isUri j))"
  by (cases "(isUri, s, k, v)" rule: validateString.cases) (auto)

lemma validateKeys_Cons:
  "validateKeys isUri ((k, s) # ks) obj = None \<longleftrightarrow>
     validateString isUri s k (map_of obj k) = None \<and> validateKeys isUri ks obj = None"
  by (simp split: option.splits)

lemma uriString_nonEmpty: "uriString isUri j \<Longrightarrow> nonEmptyString j"
  by (cases j) auto

lemma joi_string_flags:
  "presence_required (messages ms s) = presence_required s"
  "rule_uri (messages ms s) = rule_uri s"
  "presence_required (required s) = True"
  "presence_required (optional s) = False"
  "rule_uri (required s) = rule_uri s"
  "rule_uri (optional s) = rule_uri s"
  "rule_uri (uri s) = True"
  "presence_required (uri s) = presence_required s"
  "rule_uri Joi_string = False"
  "presence_required Joi_string = False"
  by (simp_all add: messages_def required_def optional_def uri_def Joi_string_def)

lemma category_keys:
  "validateKeys isUri createCategorySchema obj = None \<longleftrightarrow> specCategoryValid isUri obj"
  unfolding createCategorySchema_def validateKeys_Cons validateString_ok specCategoryValid_def joi_string_flags
  using uriString_nonEmpty [of isUri]
  by (auto split: option.splits)

lemma category_names: "map fst createCategorySchema = [''name'', ''description'', ''thumb'']"
  by (simp add: createCategorySchema_def)

lemma validate_None:
  "validate isUri sch obj = None \<longleftrightarrow>
     validateKeys isUri sch obj = None \<and> set (map fst obj) \<subseteq> set (map fst sch)"
proof -
  have "find (\<lambda>k. k \<notin> set (map fst sch)) (map fst obj) = None
          \<longleftrightarrow> set (map fst obj) \<subseteq> set (map fst sch)"
    unfolding find_None_iff by blast
  then show ?thesis
    by (cases "validateKeys isUri sch obj";
        cases "find (\<lambda>k. k \<notin> set (map fst sch)) (map fst obj)")
       (simp_all add: validate_def)
qed

text \<open>
  Claim C7, as the specification states it, fails: a payload with a valid \<open>name\<close> and
  one further key satisfies the stated condition and is refused by the schema.
\<close>

theorem createCategorySchema_unknown_key_counterexample:
  "\<not> (validate top createCategorySchema [(''name'', JStr ''Soup''), (''id'', JNum 7)] = None
      \<longleftrightarrow> specCategoryValid top [(''name'', JStr ''Soup''), (''id'', JNum 7)])"
  by (simp add: validate_def createCategorySchema_def specCategoryValid_def
      messages_def required_def optional_def uri_def Joi_string_def)

text \<open>
  Claim C7, amended.  Validation against \<open>createCategorySchema\<close> succeeds if and only
  if the payload has a non-empty string \<open>name\<close>, its \<open>description\<close> is absent or a
  non-empty string, its \<open>thumb\<close> is absent or a non-empty string in URI format, and it
  has no key other than these three.
\<close>

theorem createCategorySchema_accepts_iff:
  "validate isUri createCategorySchema obj = None \<longleftrightarrow>
     specCategoryValid isUri obj \<and> set (map fst obj) \<subseteq> {''name'', ''description'', ''thumb''}"
  unfolding validate_None category_keys category_names by simp

lemma firstError_None: "firstError es = None \<longleftrightarrow> (\<forall>err\<in>set es. err = None)"
  by (induction es rule: firstError.induct) auto

lemma emailsValid_append:
  "emailsValid re (xs @ ys) \<longleftrightarrow> emailsValid re xs \<and> emailsValid re ys"
  by (simp add: emailsValid_def)

lemma validateCreate_email:
  assumes "validateCreate re vals = None"
  shows "\<exists>a. val_email vals = Some a \<and> re a"
  using assms unfolding validateCreate_def firstError_None
  by (cases "val_email vals") (auto simp: emailColumn_def split: if_splits)

lemma constraintsCreate_email:
  assumes "constraintsCreate re t vals = None" and "val_email vals = Some a"
  shows "Some a \<notin> set (map user_email (user_rows t))"
  using assms unfolding constraintsCreate_def firstError_None
  by (auto simp: emailColumn_def split: if_splits)

lemma User_create_result:
  "(\<exists>err. User_create re t vals = (Inl err, t))
   \<or> (\<exists>err. User_create re t vals = (Inl err, t\<lparr>user_seq := Suc (user_seq t)\<rparr>))
   \<or> (\<exists>a. val_email vals = Some a \<and> re a
          \<and> Some a \<notin> set (map user_email (user_rows t))
          \<and> User_create re t vals =
              (Inr (newRow t vals),
               \<lparr>user_rows = user_rows t @ [newRow t vals], user_seq = Suc (user_seq t)\<rparr>))"
proof (cases "validateCreate re vals")
  case (Some err)
  then show ?thesis by (simp add: User_create_def)
next
  case None
  note valid = this
  from validateCreate_email [OF valid]
  obtain a where a: "val_email vals = Some a" "re a" by blast
  show ?thesis
  proof (cases "constraintsCreate re t vals")
    case (Some err)
    with valid show ?thesis by (simp add: User_create_def)
  next
    case None
    from constraintsCreate_email [OF None a(1)] a valid None
    show ?thesis by (simp add: User_create_def)
  qed
qed

lemma seq_step_preserves:
  assumes "usersInvariant re t"
  shows "usersInvariant re (t\<lparr>user_seq := Suc (user_seq t)\<rparr>)"
  using assms by (auto simp: usersInvariant_def list_all_iff)

lemma insert_preserves:
  assumes "usersInvariant re t" and a: "val_email vals = Some a" "re a"
    "Some a \<notin> set (map user_email (user_rows t))"
  shows "usersInvariant re
           \<lparr>user_rows = user_rows t @ [newRow t vals], user_seq = Suc (user_seq t)\<rparr>"
proof -
  from assms(1) have inv: "emailsValid re (user_rows t)" "distinct (map user_email (user_rows t))"
    "distinct (map user_id (user_rows t))" "list_all (\<lambda>u. user_id u < user_seq t) (user_rows t)"
    by (simp_all add: usersInvariant_def)
  from inv(4) have fresh: "user_seq t \<notin> set (map user_id (user_rows t))"
    by (auto simp: list_all_iff)
  from inv(4) have below: "list_all (\<lambda>u. user_id u < Suc (user_seq t)) (user_rows t)"
    by (auto simp: list_all_iff)
  have row: "user_email (newRow t vals) = Some a" "user_id (newRow t vals) = user_seq t"
    using a(1) by (simp_all add: newRow_def)
  show ?thesis
    unfolding usersInvariant_def
    using a inv fresh below row by (simp add: emailsValid_append) (simp add: emailsValid_def)
qed

lemma User_create_preserves:
  assumes "usersInvariant re t"
  shows "usersInvariant re (snd (User_create re t vals))"
  using User_create_result [of re t vals] assms
    seq_step_preserves [OF assms] insert_preserves [OF assms, of vals]
  by auto

lemma User_create_refused:
  assumes "User_create re t vals = (Inl err, t')"
  shows "user_rows t' = user_rows t"
  using User_create_result [of re t vals] assms by auto

lemma applyPatch_id [simp]: "user_id (applyPatch p u) = user_id u"
  by (simp add: applyPatch_def)

lemma patched_ids:
  "map user_id (map (\<lambda>u. if user_id u = i then applyPatch p u else u) us) = map user_id us"
  by (induction us) auto

lemma patched_emails_subset:
  assumes "\<And>u. user_email (g u) = e"
  shows "set (map user_email (map (\<lambda>u. if user_id u = i then g u else u) us))
           \<subseteq> insert e (set (map user_email us))"
  using assms by (induction us) auto

lemma patched_emails_distinct:
  assumes "distinct (map user_id us)" and "distinct (map user_email us)"
    and "e \<notin> set (map user_email (filter (\<lambda>u. user_id u \<noteq> i) us))"
    and g: "\<And>u. user_email (g u) = e"
  shows "distinct (map user_email (map (\<lambda>u. if user_id u = i then g u else u) us))"
  using assms(1-3)
proof (induction us)
  case Nil
  then show ?case by simp
next
  case (Cons u us)
  show ?case
  proof (cases "user_id u = i")
    case True
    with Cons.prems(1) have "i \<notin> set (map user_id us)" by auto
    then have same: "map (\<lambda>u. if user_id u = i then g u else u) us = us"
      and all: "filter (\<lambda>u. user_id u \<noteq> i) us = us"
      by (induction us) auto
    from Cons.prems(3) True all have "e \<notin> set (map user_email us)" by simp
    with Cons.prems(2) True same g show ?thesis by simp
  next
    case False
    from Cons.prems have ih: "distinct (map user_email (map (\<lambda>u. if user_id u = i then g u else u) us))"
      using Cons.IH False by simp
    from Cons.prems(3) False have ne: "user_email u \<noteq> e" by auto
    from Cons.prems(2) have "user_email u \<notin> set (map user_email us)" by simp
    with ne patched_emails_subset [of g e i us, OF g]
    have "user_email u \<notin> set (map user_email (map (\<lambda>u. if user_id u = i then g u else u) us))"
      by blast
    with ih False show ?thesis by simp
  qed
qed

lemma patched_emails_same:
  assumes "set_email p = None"
  shows "map user_email (map (\<lambda>u. if user_id u = i then applyPatch p u else u) us)
           = map user_email us"
  using assms by (induction us) (auto simp: applyPatch_def patched_def)

lemma emailsValid_map:
  assumes "\<And>u. u \<in> set us \<Longrightarrow> (case user_email (f u) of None \<Rightarrow> False | Some a \<Rightarrow> re a)"
  shows "emailsValid re (map f us)"
  using assms by (induction us) (simp_all add: emailsValid_def)

lemma emailsValid_row:
  "emailsValid re us \<Longrightarrow> u \<in> set us \<Longrightarrow>
     (case user_email u of None \<Rightarrow> False | Some a \<Rightarrow> re a)"
  by (simp add: emailsValid_def list_all_iff)

lemma validateUpdate_email:
  assumes "validateUpdate re p = None"
  shows "set_email p = None \<or> (\<exists>a. set_email p = Some (Some a) \<and> re a)"
proof (cases "set_email p")
  case None
  then show ?thesis by simp
next
  case (Some v)
  with assms show ?thesis
    unfolding validateUpdate_def firstError_None
    by (cases v) (auto simp: whenSet_def emailColumn_def split: if_splits)
qed

lemma constraintsUpdate_email:
  assumes "constraintsUpdate re t i p = None" and "set_email p = Some (Some a)"
  shows "Some a \<notin> set (map user_email (filter (\<lambda>u. user_id u \<noteq> i) (user_rows t)))"
  using assms unfolding constraintsUpdate_def firstError_None
  by (auto simp: whenSet_def emailColumn_def split: if_splits)

lemma User_update_result:
  "(\<exists>err. User_update re t i p = (Inl err, t))
   \<or> User_update re t i p = (Inr 0, t)
   \<or> ((set_email p = None
         \<or> (\<exists>a. set_email p = Some (Some a) \<and> re a
               \<and> Some a \<notin> set (map user_email (filter (\<lambda>u. user_id u \<noteq> i) (user_rows t)))))
       \<and> User_update re t i p =
           (Inr (length (filter (\<lambda>u. user_id u = i) (user_rows t))),
            t\<lparr>user_rows :=
                 map (\<lambda>u. if user_id u = i then applyPatch p u else u) (user_rows t)\<rparr>))"
proof (cases "validateUpdate re p")
  case (Some err)
  then show ?thesis by (simp add: User_update_def)
next
  case None
  note valid = this
  show ?thesis
  proof (cases "filter (\<lambda>u. user_id u = i) (user_rows t) = []")
    case True
    with valid show ?thesis by (simp add: User_update_def)
  next
    case False
    note some = this
    show ?thesis
    proof (cases "constraintsUpdate re t i p")
      case (Some err)
      with valid some show ?thesis by (simp add: User_update_def)
    next
      case None
      have "set_email p = None
         \<or> (\<exists>a. set_email p = Some (Some a) \<and> re a
               \<and> Some a \<notin> set (map user_email (filter (\<lambda>u. user_id u \<noteq> i) (user_rows t))))"
        using validateUpdate_email [OF valid] constraintsUpdate_email [OF None] by blast
      with valid some None show ?thesis by (simp add: User_update_def)
    qed
  qed
qed

lemma patch_preserves:
  assumes "usersInvariant re t"
    and chk: "set_email p = None
         \<or> (\<exists>a. set_email p = Some (Some a) \<and> re a
               \<and> Some a \<notin> set (map user_email (filter (\<lambda>u. user_id u \<noteq> i) (user_rows t))))"
  shows "usersInvariant re
           (t\<lparr>user_rows :=
                map (\<lambda>u. if user_id u = i then applyPatch p u else u) (user_rows t)\<rparr>)"
proof -
  let ?f = "\<lambda>u. if user_id u = i then applyPatch p u else u"
  from assms(1) have inv: "emailsValid re (user_rows t)" "distinct (map user_email (user_rows t))"
    "distinct (map user_id (user_rows t))" "list_all (\<lambda>u. user_id u < user_seq t) (user_rows t)"
    by (simp_all add: usersInvariant_def)
  have ids: "map user_id (map ?f (user_rows t)) = map user_id (user_rows t)"
    by (rule patched_ids)
  have seq: "list_all (\<lambda>u. user_id u < user_seq t) (map ?f (user_rows t))"
    using inv(4) by (auto simp: list_all_iff)
  have em: "emailsValid re (map ?f (user_rows t))
            \<and> distinct (map user_email (map ?f (user_rows t)))"
  proof (cases "set_email p")
    case None
    then have same: "map user_email (map ?f (user_rows t)) = map user_email (user_rows t)"
      by (rule patched_emails_same)
    have "\<And>u. user_email (?f u) = user_email u"
      using None by (simp add: applyPatch_def patched_def)
    then have "emailsValid re (map ?f (user_rows t))"
      using emailsValid_row [OF inv(1)] by (intro emailsValid_map) simp
    moreover have "distinct (map user_email (map ?f (user_rows t)))"
      unfolding same by (rule inv(2))
    ultimately show ?thesis by blast
  next
    case (Some v)
    with chk obtain a where a: "v = Some a" "re a"
      "Some a \<notin> set (map user_email (filter (\<lambda>u. user_id u \<noteq> i) (user_rows t)))"
      by auto
    have g: "\<And>u. user_email (applyPatch p u) = Some a"
      using Some a(1) by (simp add: applyPatch_def patched_def)
    have "distinct (map user_email (map ?f (user_rows t)))"
      using patched_emails_distinct [OF inv(3) inv(2) a(3), of "applyPatch p"] g by simp
    moreover have "emailsValid re (map ?f (user_rows t))"
      using emailsValid_row [OF inv(1)] g a(2) by (intro emailsValid_map) simp
    ultimately show ?thesis by simp
  qed
  have d: "distinct (map user_id (map ?f (user_rows t)))"
    unfolding ids by (rule inv(3))
  show ?thesis
    unfolding usersInvariant_def using em d seq by simp
qed

lemma User_update_preserves:
  assumes "usersInvariant re t"
  shows "usersInvariant re (snd (User_update re t i p))"
  using User_update_result [of re t i p] assms patch_preserves [OF assms, of p i]
  by auto

lemma User_update_refused:
  assumes "User_update re t i p = (Inl err, t')"
  shows "t' = t"
  using User_update_result [of re t i p] assms by auto

lemma User_destroy_preserves:
  assumes "usersInvariant re t"
  shows "usersInvariant re (User_destroy t i)"
  using assms
  by (auto simp: usersInvariant_def User_destroy_def emailsValid_def list_all_iff
           distinct_map_filter)

lemma emptyUsers_invariant: "usersInvariant re emptyUsers"
  by (simp add: usersInvariant_def emptyUsers_def emailsValid_def)

lemma applyUserOp_preserves:
  "usersInvariant re t \<Longrightarrow> usersInvariant re (applyUserOp re t op)"
  by (cases op)
     (auto intro: User_create_preserves User_update_preserves User_destroy_preserves)

lemma foldl_userOps_preserves:
  "usersInvariant re t \<Longrightarrow> usersInvariant re (foldl (applyUserOp re) t ops)"
  by (induction ops arbitrary: t) (auto intro: applyUserOp_preserves)

lemma runUserOps_invariant: "usersInvariant re (runUserOps re ops)"
  unfolding runUserOps_def by (rule foldl_userOps_preserves [OF emptyUsers_invariant])

lemma invariant_row:
  assumes "usersInvariant re t" and "u \<in> set (user_rows t)"
  shows "\<exists>a. user_email u = Some a \<and> re a
           \<and> (\<forall>v\<in>set (user_rows t). user_email v = Some a \<longrightarrow> v = u)"
proof -
  from assms have "case user_email u of None \<Rightarrow> False | Some a \<Rightarrow> re a"
    by (auto simp: usersInvariant_def emailsValid_def list_all_iff)
  then obtain a where a: "user_email u = Some a" "re a"
    by (cases "user_email u") auto
  from assms(1) have "inj_on user_email (set (user_rows t))"
    by (simp add: usersInvariant_def distinct_map)
  with assms(2) a(1) have "\<forall>v\<in>set (user_rows t). user_email v = Some a \<longrightarrow> v = u"
    unfolding inj_on_def by metis
  with a show ?thesis by blast
qed


text \<open>
  Claim C8.  Every row of the table \<open>user\<close> has an email that is not \<open>null\<close>, matches
  the pattern, and is the email of no other row: the empty table satisfies the invariant;
  \<open>User.create\<close>, an update and a deletion preserve it, whether they succeed or are
  refused, and a refused one leaves the rows as they are; and so it holds of every row
  of every table these operations lead to.
\<close>

theorem user_email_invariant:
  "usersInvariant re emptyUsers
   \<and> (usersInvariant re t \<and> User_create re t vals = (r, t') \<longrightarrow> usersInvariant re t')
   \<and> (User_create re t vals = (Inl err, t') \<longrightarrow> user_rows t' = user_rows t)
   \<and> (usersInvariant re t \<and> User_update re t i p = (n, t') \<longrightarrow> usersInvariant re t')
   \<and> (User_update re t i p = (Inl err, t') \<longrightarrow> t' = t)
   \<and> (usersInvariant re t \<longrightarrow> usersInvariant re (User_destroy t i))
   \<and> (u \<in> set (user_rows (runUserOps re ops)) \<longrightarrow>
        (\<exists>a. user_email u = Some a \<and> re a
           \<and> (\<forall>v\<in>set (user_rows (runUserOps re ops)). user_email v = Some a \<longrightarrow> v = u)))"
proof -
  have c: "usersInvariant re t \<and> User_create re t vals = (r, t') \<longrightarrow> usersInvariant re t'"
    using User_create_preserves [of re t vals] by auto
  have up: "usersInvariant re t \<and> User_update re t i p = (n, t') \<longrightarrow> usersInvariant re t'"
    using User_update_preserves [of re t i p] by auto
  have cr: "User_create re t vals = (Inl err, t') \<longrightarrow> user_rows t' = user_rows t"
    using User_create_refused [of re t vals err t'] by (rule impI)
  have ur: "User_update re t i p = (Inl err, t') \<longrightarrow> t' = t"
    using User_update_refused [of re t i p err t'] by (rule impI)
  have dp: "usersInvariant re t \<longrightarrow> usersInvariant re (User_destroy t i)"
    using User_destroy_preserves [of re t i] by (rule impI)
  have row: "u \<in> set (user_rows (runUserOps re ops)) \<longrightarrow>
        (\<exists>a. user_email u = Some a \<and> re a
           \<and> (\<forall>v\<in>set (user_rows (runUserOps re ops)). user_email v = Some a \<longrightarrow> v = u))"
    using invariant_row [OF runUserOps_invariant, of u re ops] by (rule impI)
  show ?thesis
    by (intro conjI emptyUsers_invariant c cr up ur dp row)
qed

theorem user_email_invariant_witness:
  "User_create containsAt emptyUsers (newUser (Some ''ann@site.org'') (Some ''pw''))
     = (Inr (storedUser 1 ''ann@site.org'' ''pw''),
        \<lparr>user_rows = [storedUser 1 ''ann@site.org'' ''pw''], user_seq = 2\<rparr>)
   \<and> usersInvariant containsAt \<lparr>user_rows = [storedUser 1 ''ann@site.org'' ''pw''], user_seq = 2\<rparr>
   \<and> User_create containsAt \<lparr>user_rows = [storedUser 1 ''ann@site.org'' ''pw''], user_seq = 2\<rparr>
        (newUser (Some ''ann@site.org'') (Some ''other''))
     = (Inl (UniqueConstraintError ''email''),
        \<lparr>user_rows = [storedUser 1 ''ann@site.org'' ''pw''], user_seq = 3\<rparr>)
   \<and> usersInvariant containsAt \<lparr>user_rows = [storedUser 1 ''ann@site.org'' ''pw''], user_seq = 3\<rparr>
   \<and> User_update containsAt \<lparr>user_rows = [storedUser 1 ''ann@site.org'' ''pw''], user_seq = 2\<rparr>
        1 (emailPatch (Some ''ann@home.org''))
     = (Inr 1, \<lparr>user_rows = [storedUser 1 ''ann@home.org'' ''pw''], user_seq = 2\<rparr>)
   \<and> usersInvariant containsAt \<lparr>user_rows = [storedUser 1 ''ann@home.org'' ''pw''], user_seq = 2\<rparr>
   \<and> User_update containsAt \<lparr>user_rows = [storedUser 1 ''ann@site.org'' ''pw''], user_seq = 2\<rparr>
        1 (emailPatch (Some ''nowhere''))
     = (Inl (ValidationFailed ''email''),
        \<lparr>user_rows = [storedUser 1 ''ann@site.org'' ''pw''], user_seq = 2\<rparr>)
   \<and> usersInvariant containsAt
        (User_destroy \<lparr>user_rows = [storedUser 1 ''ann@home.org'' ''pw''], user_seq = 2\<rparr> 1)
   \<and> user_rows (runUserOps containsAt
         [Create (newUser (Some ''ann@site.org'') (Some ''pw'')),
          Create (newUser (Some ''ann@site.org'') (Some ''other'')),
          Create (newUser (Some ''bob'') (Some ''pw'')),
          Create (newUser None (Some ''pw'')),
          Create (newUser (Some ''bob@site.org'') (Some ''pw'')),
          Update 3 (emailPatch (Some ''ann@site.org'')),
          Update 7 (emailPatch (Some ''eve@site.org''))])
       = [storedUser 1 ''ann@site.org'' ''pw'', storedUser 3 ''bob@site.org'' ''pw'']
   \<and> containsAt ''bob@site.org''"
proof -
  let ?ann = "newUser (Some ''ann@site.org'') (Some ''pw'')"
  let ?dup = "newUser (Some ''ann@site.org'') (Some ''other'')"
  let ?t1 = "\<lparr>user_rows = [storedUser 1 ''ann@site.org'' ''pw''], user_seq = 2\<rparr>"
  let ?t1' = "\<lparr>user_rows = [storedUser 1 ''ann@site.org'' ''pw''], user_seq = 3\<rparr>"
  let ?t2 = "\<lparr>user_rows = [storedUser 1 ''ann@home.org'' ''pw''], user_seq = 2\<rparr>"
  let ?ops = "[Create (newUser (Some ''ann@site.org'') (Some ''pw'')),
          Create (newUser (Some ''ann@site.org'') (Some ''other'')),
          Create (newUser (Some ''bob'') (Some ''pw'')),
          Create (newUser None (Some ''pw'')),
          Create (newUser (Some ''bob@site.org'') (Some ''pw'')),
          Update 3 (emailPatch (Some ''ann@site.org'')),
          Update 7 (emailPatch (Some ''eve@site.org''))]"
  have c: "User_create containsAt emptyUsers ?ann
             = (Inr (storedUser 1 ''ann@site.org'' ''pw''), ?t1)"
    by code_simp
  have i1: "usersInvariant containsAt ?t1"
    using user_email_invariant [where re = containsAt and t = emptyUsers and vals = ?ann
        and r = "Inr (storedUser 1 ''ann@site.org'' ''pw'')" and t' = ?t1] c
    by blast
  have c2: "User_create containsAt ?t1 ?dup = (Inl (UniqueConstraintError ''email''), ?t1')"
    by code_simp
  have i1': "usersInvariant containsAt ?t1'"
    using user_email_invariant [where re = containsAt and t = ?t1 and vals = ?dup
        and r = "Inl (UniqueConstraintError ''email'')" and t' = ?t1'] i1 c2
    by blast
  have u: "User_update containsAt ?t1 1 (emailPatch (Some ''ann@home.org'')) = (Inr 1, ?t2)"
    by code_simp
  have i2: "usersInvariant containsAt ?t2"
    using user_email_invariant [where re = containsAt and t = ?t1 and i = 1
        and p = "emailPatch (Some ''ann@home.org'')" and n = "Inr 1" and t' = ?t2] i1 u
    by blast
  have u2: "User_update containsAt ?t1 1 (emailPatch (Some ''nowhere''))
              = (Inl (ValidationFailed ''email''), ?t1)"
    by code_simp
  have i3: "usersInvariant containsAt (User_destroy ?t2 1)"
    using user_email_invariant [where re = containsAt and t = ?t2 and i = 1] i2 by blast
  have rows: "user_rows (runUserOps containsAt ?ops)
       = [storedUser 1 ''ann@site.org'' ''pw'', storedUser 3 ''bob@site.org'' ''pw'']"
    by code_simp
  have "storedUser 3 ''bob@site.org'' ''pw'' \<in> set (user_rows (runUserOps containsAt ?ops))"
    unfolding rows by simp
  with user_email_invariant [where re = containsAt
        and u = "storedUser 3 ''bob@site.org'' ''pw''" and ops = ?ops]
  have bob: "containsAt ''bob@site.org''"
    by (auto simp: storedUser_def)
  show ?thesis
    by (intro conjI c i1 c2 i1' u i2 u2 i3 rows bob)
qed

section \<open>Properties of the favorites service\<close>

subsection \<open>Ordering\<close>

lemma mset_insertDesc: "mset (insertDesc k x xs) = add_mset x (mset xs)"
  by (induction xs) auto

lemma mset_orderByDesc: "mset (orderByDesc k xs) = mset xs"
  by (induction xs) (auto simp: mset_insertDesc)

lemma set_orderByDesc: "set (orderByDesc k xs) = set xs"
  by (metis mset_orderByDesc set_mset_mset)

lemma length_orderByDesc: "length (orderByDesc k xs) = length xs"
  by (metis mset_orderByDesc size_mset)

lemma set_insertDesc: "set (insertDesc k x xs) = insert x (set xs)"
  by (metis mset_insertDesc set_mset_add_mset_insert set_mset_mset)

lemma sorted_insertDesc:
  "sorted_wrt (\<lambda>a b. k b \<le> k a) xs \<Longrightarrow> sorted_wrt (\<lambda>a b. k b \<le> k a) (insertDesc k x xs)"
  by (induction xs) (auto simp: set_insertDesc)

lemma sorted_orderByDesc: "sorted_wrt (\<lambda>a b. k b \<le> k a) (orderByDesc k xs)"
  by (induction xs) (auto simp: sorted_insertDesc)

lemma distinct_map_orderByDesc:
  "distinct (map g (orderByDesc k xs)) \<longleftrightarrow> distinct (map g xs)"
proof -
  have "mset (map g (orderByDesc k xs)) = mset (map g xs)"
    by (simp add: mset_orderByDesc)
  then show ?thesis by (rule mset_eq_imp_distinct_iff)
qed

text \<open>
  Claim C5.  The list \<open>listPopularRecipes\<close> returns holds the stored recipes, and is ordered
  by favorite count, largest first: a recipe at a later position never has more favorites
  than one at an earlier position, so a recipe with strictly more favorites than another
  does not appear after it.
\<close>

theorem listPopularRecipes_descending:
  "mset (listPopularRecipes st) = mset (store_recipes st)
   \<and> (i < j \<and> j < length (listPopularRecipes st) \<longrightarrow>
        favoriteCount st (listPopularRecipes st ! j)
          \<le> favoriteCount st (listPopularRecipes st ! i))
   \<and> (favoriteCount st b < favoriteCount st a \<longrightarrow>
        \<not> (\<exists>i j. i < j \<and> j < length (listPopularRecipes st)
               \<and> listPopularRecipes st ! i = b \<and> listPopularRecipes st ! j = a))"
proof -
  let ?ps = "listPopularRecipes st"
  have s: "sorted_wrt (\<lambda>a b. favoriteCount st b \<le> favoriteCount st a) ?ps"
    unfolding listPopularRecipes_def by (rule sorted_orderByDesc)
  have nth: "\<And>i j. i < j \<Longrightarrow> j < length ?ps \<Longrightarrow>
      favoriteCount st (?ps ! j) \<le> favoriteCount st (?ps ! i)"
    using s by (simp add: sorted_wrt_iff_nth_less)
  have "mset ?ps = mset (store_recipes st)"
    unfolding listPopularRecipes_def by (rule mset_orderByDesc)
  moreover have "favoriteCount st b < favoriteCount st a \<longrightarrow>
        \<not> (\<exists>i j. i < j \<and> j < length ?ps \<and> ?ps ! i = b \<and> ?ps ! j = a)"
    using nth by (metis not_le)
  ultimately show ?thesis using nth by blast
qed

theorem listPopularRecipes_descending_witness:
  "listPopularRecipes
     (sampleStore [''a'', ''b'', ''c''] [fav 1 ''b'' 5, fav 2 ''b'' 6, fav 1 ''c'' 7])
     = map sampleRecipe [''b'', ''c'', ''a'']
   \<and> favoriteCount
       (sampleStore [''a'', ''b'', ''c''] [fav 1 ''b'' 5, fav 2 ''b'' 6, fav 1 ''c'' 7])
       (sampleRecipe ''a'')
     < favoriteCount
       (sampleStore [''a'', ''b'', ''c''] [fav 1 ''b'' 5, fav 2 ''b'' 6, fav 1 ''c'' 7])
       (sampleRecipe ''b'')
   \<and> favoriteCount
       (sampleStore [''a'', ''b'', ''c''] [fav 1 ''b'' 5, fav 2 ''b'' 6, fav 1 ''c'' 7])
       (sampleRecipe ''a'')
     \<le> favoriteCount
       (sampleStore [''a'', ''b'', ''c''] [fav 1 ''b'' 5, fav 2 ''b'' 6, fav 1 ''c'' 7])
       (sampleRecipe ''c'')
   \<and> \<not> (\<exists>i j. i < j
          \<and> j < length (listPopularRecipes
                (sampleStore [''a'', ''b'', ''c''] [fav 1 ''b'' 5, fav 2 ''b'' 6, fav 1 ''c'' 7]))
          \<and> listPopularRecipes
                (sampleStore [''a'', ''b'', ''c''] [fav 1 ''b'' 5, fav 2 ''b'' 6, fav 1 ''c'' 7]) ! i
              = sampleRecipe ''a''
          \<and> listPopularRecipes
                (sampleStore [''a'', ''b'', ''c''] [fav 1 ''b'' 5, fav 2 ''b'' 6, fav 1 ''c'' 7]) ! j
              = sampleRecipe ''b'')"
proof -
  let ?st = "sampleStore [''a'', ''b'', ''c''] [fav 1 ''b'' 5, fav 2 ''b'' 6, fav 1 ''c'' 7]"
  have l: "listPopularRecipes ?st = map sampleRecipe [''b'', ''c'', ''a'']"
    by (simp add: listPopularRecipes_def sampleStore_def favoriteCount_def fav_def
          sampleRecipe_def)
  have c: "favoriteCount ?st (sampleRecipe ''a'') < favoriteCount ?st (sampleRecipe ''b'')"
    by (simp add: sampleStore_def favoriteCount_def fav_def sampleRecipe_def)
  have ix: "(1::nat) < 2 \<and> 2 < length (listPopularRecipes ?st)"
    unfolding l by simp
  have n: "listPopularRecipes ?st ! 2 = sampleRecipe ''a''"
    "listPopularRecipes ?st ! 1 = sampleRecipe ''c''"
    unfolding l by simp_all
  from listPopularRecipes_descending
         [where st = ?st and i = 1 and j = 2 and a = "sampleRecipe ''b''"
            and b = "sampleRecipe ''a''"] ix c n l
  show ?thesis by simp
qed

subsection \<open>Adding and removing\<close>

lemma no_pair_filter:
  assumes "\<not> isFavorite st u r"
  shows "filter (\<lambda>f. fav_userId f = u \<and> fav_recipeId f = r) (store_favorites st) = []"
  using assms unfolding isFavorite_def filter_empty_conv by force

lemma addToFavorites_success:
  assumes "recipeExists st r" and "\<not> isFavorite st u r"
  shows "addToFavorites now st u r =
           (Inr (), st\<lparr>store_favorites := store_favorites st @
                        [\<lparr>fav_userId = u, fav_recipeId = r, favoritedAt = now\<rparr>]\<rparr>)"
  using assms by (simp add: addToFavorites_def)

lemma addToFavorites_then_favorite:
  assumes "recipeExists st r" and "\<not> isFavorite st u r"
  shows "recipeExists (snd (addToFavorites now st u r)) r"
    and "isFavorite (snd (addToFavorites now st u r)) u r"
  using assms by (simp_all add: addToFavorites_success) (simp_all add: recipeExists_def isFavorite_def)

lemma addToFavorites_unique:
  assumes "favoritesUnique st"
  shows "favoritesUnique (snd (addToFavorites now st u r))"
  using assms by (auto simp: addToFavorites_def favoritesUnique_def isFavorite_def)

lemma removeFromFavorites_unique:
  assumes "favoritesUnique st"
  shows "favoritesUnique (snd (removeFromFavorites st u r))"
  using assms by (auto simp: removeFromFavorites_def favoritesUnique_def distinct_map_filter)

text \<open>
  Claim C1.  \<open>addToFavorites\<close> fails with \<open>NotFound\<close> and leaves the store as it is when
  no recipe has the id; fails with \<open>Conflict\<close> and leaves the store as it is when the
  pair is already stored; and otherwise succeeds, appending the one pair and touching
  nothing else, so that the pair is then stored exactly once.  A second identical call
  then fails with \<open>Conflict\<close>, and after the two calls the number of stored favorites
  has grown by one.  Pairs that were unique stay unique.
\<close>

theorem addToFavorites_contract:
  "(\<not> recipeExists st r \<longrightarrow> addToFavorites now st u r = (Inl NotFound, st))
   \<and> (recipeExists st r \<and> isFavorite st u r \<longrightarrow>
        addToFavorites now st u r = (Inl Conflict, st))
   \<and> (recipeExists st r \<and> \<not> isFavorite st u r \<longrightarrow>
        fst (addToFavorites now st u r) = Inr ()
        \<and> store_favorites (snd (addToFavorites now st u r))
            = store_favorites st @ [\<lparr>fav_userId = u, fav_recipeId = r, favoritedAt = now\<rparr>]
        \<and> store_recipes (snd (addToFavorites now st u r)) = store_recipes st
        \<and> store_users (snd (addToFavorites now st u r)) = store_users st
        \<and> length (filter (\<lambda>f. fav_userId f = u \<and> fav_recipeId f = r)
                    (store_favorites (snd (addToFavorites now st u r)))) = 1
        \<and> addToFavorites now' (snd (addToFavorites now st u r)) u r
            = (Inl Conflict, snd (addToFavorites now st u r))
        \<and> length (store_favorites
                    (snd (addToFavorites now' (snd (addToFavorites now st u r)) u r)))
            = length (store_favorites st) + 1)
   \<and> (favoritesUnique st \<longrightarrow> favoritesUnique (snd (addToFavorites now st u r)))"
proof -
  have nf: "\<not> recipeExists st r \<longrightarrow> addToFavorites now st u r = (Inl NotFound, st)"
    by (simp add: addToFavorites_def)
  have cf: "recipeExists st r \<and> isFavorite st u r \<longrightarrow>
        addToFavorites now st u r = (Inl Conflict, st)"
    by (simp add: addToFavorites_def)
  have ok: "recipeExists st r \<and> \<not> isFavorite st u r \<longrightarrow>
        fst (addToFavorites now st u r) = Inr ()
        \<and> store_favorites (snd (addToFavorites now st u r))
            = store_favorites st @ [\<lparr>fav_userId = u, fav_recipeId = r, favoritedAt = now\<rparr>]
        \<and> store_recipes (snd (addToFavorites now st u r)) = store_recipes st
        \<and> store_users (snd (addToFavorites now st u r)) = store_users st
        \<and> length (filter (\<lambda>f. fav_userId f = u \<and> fav_recipeId f = r)
                    (store_favorites (snd (addToFavorites now st u r)))) = 1
        \<and> addToFavorites now' (snd (addToFavorites now st u r)) u r
            = (Inl Conflict, snd (addToFavorites now st u r))
        \<and> length (store_favorites
                    (snd (addToFavorites now' (snd (addToFavorites now st u r)) u r)))
            = length (store_favorites st) + 1"
  proof
    assume a: "recipeExists st r \<and> \<not> isFavorite st u r"
    then have s: "addToFavorites now st u r =
           (Inr (), st\<lparr>store_favorites := store_favorites st @
                        [\<lparr>fav_userId = u, fav_recipeId = r, favoritedAt = now\<rparr>]\<rparr>)"
      by (simp add: addToFavorites_success)
    from a have again: "addToFavorites now' (snd (addToFavorites now st u r)) u r
            = (Inl Conflict, snd (addToFavorites now st u r))"
      using addToFavorites_then_favorite [of st r u now]
      by (simp add: addToFavorites_def [of now'])
    from a have once: "length (filter (\<lambda>f. fav_userId f = u \<and> fav_recipeId f = r)
                    (store_favorites (snd (addToFavorites now st u r)))) = 1"
      unfolding s by (simp add: no_pair_filter)
    show "fst (addToFavorites now st u r) = Inr ()
        \<and> store_favorites (snd (addToFavorites now st u r))
            = store_favorites st @ [\<lparr>fav_userId = u, fav_recipeId = r, favoritedAt = now\<rparr>]
        \<and> store_recipes (snd (addToFavorites now st u r)) = store_recipes st
        \<and> store_users (snd (addToFavorites now st u r)) = store_users st
        \<and> length (filter (\<lambda>f. fav_userId f = u \<and> fav_recipeId f = r)
                    (store_favorites (snd (addToFavorites now st u r)))) = 1
        \<and> addToFavorites now' (snd (addToFavorites now st u r)) u r
            = (Inl Conflict, snd (addToFavorites now st u r))
        \<and> length (store_favorites
                    (snd (addToFavorites now' (snd (addToFavorites now st u r)) u r)))
            = length (store_favorites st) + 1"
      unfolding again using once unfolding s by simp
  qed
  show ?thesis
    using nf cf ok addToFavorites_unique [of st now u r] by blast
qed

theorem addToFavorites_contract_witness:
  "addToFavorites 5 (sampleStore [''a''] []) 1 ''b'' = (Inl NotFound, sampleStore [''a''] [])
   \<and> addToFavorites 5 (sampleStore [''a''] [fav 1 ''a'' 3]) 1 ''a''
       = (Inl Conflict, sampleStore [''a''] [fav 1 ''a'' 3])
   \<and> addToFavorites 5 (sampleStore [''a''] [fav 2 ''a'' 3]) 1 ''a''
       = (Inr (), sampleStore [''a''] [fav 2 ''a'' 3, fav 1 ''a'' 5])
   \<and> addToFavorites 6 (sampleStore [''a''] [fav 2 ''a'' 3, fav 1 ''a'' 5]) 1 ''a''
       = (Inl Conflict, sampleStore [''a''] [fav 2 ''a'' 3, fav 1 ''a'' 5])
   \<and> favoritesUnique (sampleStore [''a''] [fav 2 ''a'' 3, fav 1 ''a'' 5])"
proof -
  have e1: "\<not> recipeExists (sampleStore [''a''] []) ''b''"
    by (simp add: recipeExists_def sampleStore_def sampleRecipe_def)
  have e2: "recipeExists (sampleStore [''a''] [fav 1 ''a'' 3]) ''a''
            \<and> isFavorite (sampleStore [''a''] [fav 1 ''a'' 3]) 1 ''a''"
    by (simp add: recipeExists_def isFavorite_def sampleStore_def sampleRecipe_def fav_def)
  have e3: "recipeExists (sampleStore [''a''] [fav 2 ''a'' 3]) ''a''
            \<and> \<not> isFavorite (sampleStore [''a''] [fav 2 ''a'' 3]) 1 ''a''"
    by (simp add: recipeExists_def isFavorite_def sampleStore_def sampleRecipe_def fav_def)
  have e4: "favoritesUnique (sampleStore [''a''] [fav 2 ''a'' 3])"
    by (simp add: favoritesUnique_def sampleStore_def fav_def)
  have r3: "addToFavorites 5 (sampleStore [''a''] [fav 2 ''a'' 3]) 1 ''a''
       = (Inr (), sampleStore [''a''] [fav 2 ''a'' 3, fav 1 ''a'' 5])"
    using e3 by (simp add: addToFavorites_def) (simp add: sampleStore_def fav_def)
  from addToFavorites_contract [where st = "sampleStore [''a''] []" and r = "''b''"
          and now = 5 and u = 1]
       addToFavorites_contract [where st = "sampleStore [''a''] [fav 1 ''a'' 3]"
          and r = "''a''" and now = 5 and u = 1]
       addToFavorites_contract [where st = "sampleStore [''a''] [fav 2 ''a'' 3]"
          and r = "''a''" and now = 5 and u = 1 and now' = 6]
       e1 e2 e3 e4 r3
  show ?thesis by simp
qed

text \<open>
  Claim C2.  When the pair is not stored, \<open>removeFromFavorites\<close> fails, with
  \<open>NotFound\<close> if no recipe has the id and with \<open>Conflict\<close> otherwise, and the store
  after the call is the store before it.
\<close>

theorem removeFromFavorites_absent_pair:
  "\<not> isFavorite st u r \<longrightarrow>
     (fst (removeFromFavorites st u r) = Inl NotFound
        \<or> fst (removeFromFavorites st u r) = Inl Conflict)
     \<and> snd (removeFromFavorites st u r) = st
     \<and> (fst (removeFromFavorites st u r) = Inl NotFound) = (\<not> recipeExists st r)
     \<and> (fst (removeFromFavorites st u r) = Inl Conflict) = recipeExists st r"
  by (simp add: removeFromFavorites_def)

theorem removeFromFavorites_absent_pair_witness:
  "\<not> isFavorite (sampleStore [''a''] [fav 2 ''a'' 3]) 1 ''a''
   \<and> removeFromFavorites (sampleStore [''a''] [fav 2 ''a'' 3]) 1 ''a''
       = (Inl Conflict, sampleStore [''a''] [fav 2 ''a'' 3])
   \<and> \<not> isFavorite (sampleStore [''a''] [fav 2 ''a'' 3]) 1 ''b''
   \<and> removeFromFavorites (sampleStore [''a''] [fav 2 ''a'' 3]) 1 ''b''
       = (Inl NotFound, sampleStore [''a''] [fav 2 ''a'' 3])"
proof -
  have e1: "\<not> isFavorite (sampleStore [''a''] [fav 2 ''a'' 3]) 1 ''a''"
    "\<not> isFavorite (sampleStore [''a''] [fav 2 ''a'' 3]) 1 ''b''"
    by (simp_all add: isFavorite_def sampleStore_def fav_def)
  have e2: "recipeExists (sampleStore [''a''] [fav 2 ''a'' 3]) ''a''"
    "\<not> recipeExists (sampleStore [''a''] [fav 2 ''a'' 3]) ''b''"
    by (simp_all add: recipeExists_def sampleStore_def sampleRecipe_def)
  from removeFromFavorites_absent_pair
         [where st = "sampleStore [''a''] [fav 2 ''a'' 3]" and u = 1 and r = "''a''"]
       removeFromFavorites_absent_pair
         [where st = "sampleStore [''a''] [fav 2 ''a'' 3]" and u = 1 and r = "''b''"]
       e1 e2
  show ?thesis
    by (metis prod.collapse)
qed

subsection \<open>Listing\<close>

lemma isInteger_Ints: "isInteger x \<longleftrightarrow> x \<in> \<int>"
  unfolding isInteger_def by (metis Ints_of_int of_int_floor)

lemma pageParam_None: "pageParam d None = Inr d"
  by (simp add: pageParam_def)

lemma pageParam_bad:
  "pageParam d (Some x) = Inl BadRequest \<longleftrightarrow> x \<le> 0 \<or> x \<notin> \<int>"
  by (auto simp: pageParam_def isInteger_Ints)

lemma pageParam_error: "pageParam d p = Inl e \<Longrightarrow> e = BadRequest"
  by (auto simp: pageParam_def split: option.splits if_splits)

lemma pageParam_numerals:
  "pageParam d (Some 1) = Inr 1"
  "pageParam d (Some 2) = Inr 2"
  "pageParam d (Some 10) = Inr 10"
  by (simp_all add: pageParam_def isInteger_def)

lemma listFavorites_bad:
  "listFavorites st u page limit = Inl BadRequest \<longleftrightarrow>
     pageParam 1 page = Inl BadRequest \<or> pageParam 10 limit = Inl BadRequest"
  by (auto simp: listFavorites_def split: sum.splits dest: pageParam_error)

lemma listFavorites_error: "listFavorites st u page limit = Inl e \<Longrightarrow> e = BadRequest"
  by (auto simp: listFavorites_def split: sum.splits dest: pageParam_error)

lemma joinRecipes_row:
  "(f, x) \<in> set (joinRecipes rs fs) \<Longrightarrow>
     f \<in> set fs \<and> x \<in> set rs \<and> recipe_id x = fav_recipeId f"
  by (induction fs) (auto split: option.splits simp: find_Some_iff)

lemma joinRecipes_fst:
  "map fst (joinRecipes rs fs)
     = filter (\<lambda>f. find (\<lambda>x. recipe_id x = fav_recipeId f) rs \<noteq> None) fs"
  by (induction fs) (auto split: option.splits)

lemma joinRecipes_ids:
  "map recipe_id (map snd (joinRecipes rs fs)) = map fav_recipeId (map fst (joinRecipes rs fs))"
  by (induction fs) (auto split: option.splits simp: find_Some_iff)

lemma userFavorites_row:
  "f \<in> set (userFavorites st u) \<Longrightarrow> f \<in> set (store_favorites st) \<and> fav_userId f = u"
  by (simp add: userFavorites_def set_orderByDesc)

lemma favoriteRows_sorted:
  "sorted_wrt (\<lambda>a b. favoritedAt (fst b) \<le> favoritedAt (fst a)) (favoriteRows st u)"
proof -
  have "sorted_wrt (\<lambda>a b. favoritedAt b \<le> favoritedAt a) (userFavorites st u)"
    unfolding userFavorites_def by (rule sorted_orderByDesc)
  then have "sorted_wrt (\<lambda>a b. favoritedAt b \<le> favoritedAt a)
               (map fst (favoriteRows st u))"
    unfolding favoriteRows_def joinRecipes_fst by (rule sorted_wrt_filter)
  then show ?thesis by (simp add: sorted_wrt_map)
qed

lemma favoriteRows_row:
  assumes "(f, x) \<in> set (favoriteRows st u)"
  shows "f \<in> set (store_favorites st) \<and> fav_userId f = u
           \<and> x \<in> set (store_recipes st) \<and> recipe_id x = fav_recipeId f"
  using joinRecipes_row [OF assms [unfolded favoriteRows_def]] userFavorites_row [of f st u]
  by blast

lemma paginate_subset: "set (paginate p l xs) \<subseteq> set xs"
  unfolding paginate_def by (meson set_take_subset set_drop_subset subset_trans)

lemma paginate_sorted: "sorted_wrt R xs \<Longrightarrow> sorted_wrt R (paginate p l xs)"
  unfolding paginate_def by (simp add: sorted_wrt_take sorted_wrt_drop)

lemma distinct_of_map: "distinct (map g xs) \<Longrightarrow> distinct xs"
  by (simp add: distinct_map)

lemma distinct_user_recipeIds:
  assumes "favoritesUnique st"
  shows "distinct (map fav_recipeId (filter (\<lambda>f. fav_userId f = u) (store_favorites st)))"
proof -
  let ?fs = "filter (\<lambda>f. fav_userId f = u) (store_favorites st)"
  from assms have "distinct (map (\<lambda>f. (fav_userId f, fav_recipeId f)) ?fs)"
    unfolding favoritesUnique_def by (rule distinct_map_filter)
  moreover have "map (\<lambda>f. (fav_userId f, fav_recipeId f)) ?fs
                   = map (Pair u) (map fav_recipeId ?fs)"
    by (induction "store_favorites st") auto
  ultimately have "distinct (map (Pair u) (map fav_recipeId ?fs))"
    by simp
  then show ?thesis
    by (rule distinct_of_map)
qed

lemma favoriteRows_distinct:
  assumes "favoritesUnique st"
  shows "distinct (map snd (favoriteRows st u))"
proof -
  have "distinct (map fav_recipeId (userFavorites st u))"
    unfolding userFavorites_def distinct_map_orderByDesc
    by (rule distinct_user_recipeIds [OF assms])
  then have "distinct (map fav_recipeId (map fst (favoriteRows st u)))"
    unfolding favoriteRows_def joinRecipes_fst by (rule distinct_map_filter)
  then have "distinct (map recipe_id (map snd (favoriteRows st u)))"
    unfolding favoriteRows_def joinRecipes_ids .
  then show ?thesis
    by (rule distinct_of_map)
qed


lemma find_recipe_iff:
  "find (\<lambda>x. recipe_id x = r) (store_recipes st) \<noteq> None \<longleftrightarrow> recipeExists st r"
  by (auto simp: find_None_iff recipeExists_def)

lemma favoriteRows_favorites:
  "set (map fst (favoriteRows st u))
     = {f \<in> set (store_favorites st). fav_userId f = u \<and> recipeExists st (fav_recipeId f)}"
  unfolding favoriteRows_def joinRecipes_fst find_recipe_iff
  by (auto simp: userFavorites_def set_orderByDesc)

lemma listFavorites_page:
  assumes "listFavorites st u page limit = Inr rs"
  shows "rs = map snd (paginate (case page of None \<Rightarrow> 1 | Some x \<Rightarrow> nat \<lfloor>x\<rfloor>)
                         (case limit of None \<Rightarrow> 10 | Some x \<Rightarrow> nat \<lfloor>x\<rfloor>)
                         (favoriteRows st u))"
  using assms
  by (cases page; cases limit)
     (auto simp: listFavorites_def pageParam_def split: sum.splits if_splits)

text \<open>
  Claim C3.  \<open>listFavorites\<close> reads an unspecified page as 1 and an unspecified limit as
  10; it fails with \<open>BadRequest\<close> exactly when a supplied page or limit is not positive
  or not an integer, and fails in no other way; and on success it returns the requested
  page of the user's favorited recipes (those of the user's favorites whose recipe is
  stored), in the order of the time they were favorited, latest first.
\<close>

theorem listFavorites_contract:
  "listFavorites st u None limit = listFavorites st u (Some 1) limit
   \<and> listFavorites st u page None = listFavorites st u page (Some 10)
   \<and> listFavorites st u None None = listFavorites st u (Some 1) (Some 10)
   \<and> (listFavorites st u page limit = Inl BadRequest)
       = (\<exists>x. (page = Some x \<or> limit = Some x) \<and> (x \<le> 0 \<or> x \<notin> \<int>))
   \<and> (listFavorites st u page limit = Inl e \<longrightarrow> e = BadRequest)
   \<and> (listFavorites st u page limit = Inr rs \<longrightarrow>
        (\<exists>rows. rs = map snd rows
           \<and> sorted_wrt (\<lambda>a b. favoritedAt (fst b) \<le> favoritedAt (fst a)) rows
           \<and> (\<forall>(f, x)\<in>set rows.
                 f \<in> set (store_favorites st) \<and> fav_userId f = u
                 \<and> x \<in> set (store_recipes st) \<and> recipe_id x = fav_recipeId f)))
   \<and> (listFavorites st u page limit = Inr rs \<longrightarrow>
        rs = map snd (paginate (case page of None \<Rightarrow> 1 | Some x \<Rightarrow> nat \<lfloor>x\<rfloor>)
                        (case limit of None \<Rightarrow> 10 | Some x \<Rightarrow> nat \<lfloor>x\<rfloor>)
                        (favoriteRows st u)))
   \<and> set (map fst (favoriteRows st u))
       = {f \<in> set (store_favorites st). fav_userId f = u \<and> recipeExists st (fav_recipeId f)}"
proof -
  have d1: "listFavorites st u None limit = listFavorites st u (Some 1) limit"
    unfolding listFavorites_def pageParam_None pageParam_numerals ..
  have d2: "listFavorites st u page None = listFavorites st u page (Some 10)"
    unfolding listFavorites_def pageParam_None pageParam_numerals ..
  have d3: "listFavorites st u None None = listFavorites st u (Some 1) (Some 10)"
    unfolding listFavorites_def pageParam_None pageParam_numerals ..
  have bad: "(listFavorites st u page limit = Inl BadRequest)
       = (\<exists>x. (page = Some x \<or> limit = Some x) \<and> (x \<le> 0 \<or> x \<notin> \<int>))"
  proof -
    have p: "\<And>d q. pageParam d q = Inl BadRequest \<longleftrightarrow> (\<exists>x. q = Some x \<and> (x \<le> 0 \<or> x \<notin> \<int>))"
      subgoal for d q by (cases q) (simp_all add: pageParam_None pageParam_bad)
      done
    show ?thesis unfolding listFavorites_bad p by blast
  qed
  have only: "listFavorites st u page limit = Inl e \<longrightarrow> e = BadRequest"
    using listFavorites_error by blast
  have ord: "listFavorites st u page limit = Inr rs \<longrightarrow>
        (\<exists>rows. rs = map snd rows
           \<and> sorted_wrt (\<lambda>a b. favoritedAt (fst b) \<le> favoritedAt (fst a)) rows
           \<and> (\<forall>(f, x)\<in>set rows.
                 f \<in> set (store_favorites st) \<and> fav_userId f = u
                 \<and> x \<in> set (store_recipes st) \<and> recipe_id x = fav_recipeId f))"
  proof
    assume "listFavorites st u page limit = Inr rs"
    then obtain p l where rs: "rs = map snd (paginate p l (favoriteRows st u))"
      by (auto simp: listFavorites_def split: sum.splits)
    let ?rows = "paginate p l (favoriteRows st u)"
    have "sorted_wrt (\<lambda>a b. favoritedAt (fst b) \<le> favoritedAt (fst a)) ?rows"
      by (rule paginate_sorted [OF favoriteRows_sorted])
    moreover have "\<forall>(f, x)\<in>set ?rows.
                 f \<in> set (store_favorites st) \<and> fav_userId f = u
                 \<and> x \<in> set (store_recipes st) \<and> recipe_id x = fav_recipeId f"
      using paginate_subset [of p l "favoriteRows st u"] favoriteRows_row [of _ _ st u]
      by blast
    ultimately show "\<exists>rows. rs = map snd rows
           \<and> sorted_wrt (\<lambda>a b. favoritedAt (fst b) \<le> favoritedAt (fst a)) rows
           \<and> (\<forall>(f, x)\<in>set rows.
                 f \<in> set (store_favorites st) \<and> fav_userId f = u
                 \<and> x \<in> set (store_recipes st) \<and> recipe_id x = fav_recipeId f)"
      using rs by blast
  qed
  have pg: "listFavorites st u page limit = Inr rs \<longrightarrow>
        rs = map snd (paginate (case page of None \<Rightarrow> 1 | Some x \<Rightarrow> nat \<lfloor>x\<rfloor>)
                        (case limit of None \<Rightarrow> 10 | Some x \<Rightarrow> nat \<lfloor>x\<rfloor>)
                        (favoriteRows st u))"
    using listFavorites_page [of st u page limit rs] by blast
  show ?thesis
    by (intro conjI d1 d2 d3 bad only ord pg favoriteRows_favorites)
qed

theorem listFavorites_contract_witness:
  "listFavorites
     (sampleStore [''a'', ''b'', ''c'']
        [fav 1 ''b'' 5, fav 2 ''b'' 6, fav 1 ''c'' 7, fav 1 ''zz'' 9]) 1 None None
     = Inr (map sampleRecipe [''c'', ''b''])
   \<and> (\<exists>rows. map sampleRecipe [''c'', ''b''] = map snd rows
         \<and> sorted_wrt (\<lambda>a b. favoritedAt (fst b) \<le> favoritedAt (fst a)) rows
         \<and> (\<forall>(f, x)\<in>set rows.
               f \<in> set (store_favorites
                          (sampleStore [''a'', ''b'', ''c'']
                             [fav 1 ''b'' 5, fav 2 ''b'' 6, fav 1 ''c'' 7, fav 1 ''zz'' 9]))
               \<and> fav_userId f = 1
               \<and> x \<in> set (store_recipes
                          (sampleStore [''a'', ''b'', ''c'']
                             [fav 1 ''b'' 5, fav 2 ''b'' 6, fav 1 ''c'' 7, fav 1 ''zz'' 9]))
               \<and> recipe_id x = fav_recipeId f))
   \<and> listFavorites
       (sampleStore [''a'', ''b'', ''c'']
          [fav 1 ''b'' 5, fav 2 ''b'' 6, fav 1 ''c'' 7, fav 1 ''zz'' 9]) 1 (Some (5 / 2)) None
     = Inl BadRequest
   \<and> listFavorites
       (sampleStore [''a'', ''b'', ''c'']
          [fav 1 ''b'' 5, fav 2 ''b'' 6, fav 1 ''c'' 7, fav 1 ''zz'' 9]) 1 None (Some 0)
     = Inl BadRequest
   \<and> ((5 / 2 :: rat) \<le> 0 \<or> (5 / 2 :: rat) \<notin> \<int>)"
proof -
  let ?st = "sampleStore [''a'', ''b'', ''c'']
        [fav 1 ''b'' 5, fav 2 ''b'' 6, fav 1 ''c'' 7, fav 1 ''zz'' 9]"
  have ok: "listFavorites ?st 1 None None = Inr (map sampleRecipe [''c'', ''b''])"
    by (simp add: listFavorites_def pageParam_def paginate_def favoriteRows_def
          userFavorites_def sampleStore_def fav_def sampleRecipe_def)
  have b1: "listFavorites ?st 1 (Some (5 / 2)) None = Inl BadRequest"
    by code_simp
  have b2: "listFavorites ?st 1 None (Some 0) = Inl BadRequest"
    by (simp add: listFavorites_def pageParam_def)
  from listFavorites_contract
         [where st = ?st and u = 1 and page = None and limit = None
            and rs = "map sampleRecipe [''c'', ''b'']" and e = BadRequest]
  have imp: "listFavorites ?st 1 None None = Inr (map sampleRecipe [''c'', ''b'']) \<longrightarrow>
      (\<exists>rows. map sampleRecipe [''c'', ''b''] = map snd rows
         \<and> sorted_wrt (\<lambda>a b. favoritedAt (fst b) \<le> favoritedAt (fst a)) rows
         \<and> (\<forall>(f, x)\<in>set rows.
               f \<in> set (store_favorites ?st) \<and> fav_userId f = 1
               \<and> x \<in> set (store_recipes ?st) \<and> recipe_id x = fav_recipeId f))"
    by (elim conjE)
  from imp ok
  have rows: "\<exists>rows. map sampleRecipe [''c'', ''b''] = map snd rows
         \<and> sorted_wrt (\<lambda>a b. favoritedAt (fst b) \<le> favoritedAt (fst a)) rows
         \<and> (\<forall>(f, x)\<in>set rows.
               f \<in> set (store_favorites ?st) \<and> fav_userId f = 1
               \<and> x \<in> set (store_recipes ?st) \<and> recipe_id x = fav_recipeId f)"
    by (rule mp)
  from listFavorites_contract
         [where st = ?st and u = 1 and page = "Some (5 / 2)" and limit = None
            and rs = "[]" and e = BadRequest]
  have iff: "(listFavorites ?st 1 (Some (5 / 2)) None = Inl BadRequest)
       = (\<exists>x. (Some (5 / 2 :: rat) = Some x \<or> None = Some x) \<and> (x \<le> 0 \<or> x \<notin> \<int>))"
    by (elim conjE)
  from iff b1 have frac: "(5 / 2 :: rat) \<le> 0 \<or> (5 / 2 :: rat) \<notin> \<int>"
    by auto
  show ?thesis
    by (intro conjI ok rows b1 b2 frac)
qed

text \<open>
  Claim C4.  On a store whose favorite pairs are unique, pages 1 and 2 of a user's
  favorites with limit 10, read from the same store, are the first ten and the next ten
  entries of one ordered sequence: page 1 has at most ten items, no item of page 2 is an
  item of page 1, and the two pages together are the first twenty entries, none of them
  twice.
\<close>

theorem listFavorites_pages:
  "favoritesUnique st \<longrightarrow>
     (\<exists>p1 p2. listFavorites st u (Some 1) (Some 10) = Inr p1
        \<and> listFavorites st u (Some 2) (Some 10) = Inr p2
        \<and> length p1 \<le> 10
        \<and> set p1 \<inter> set p2 = {}
        \<and> p1 = take 10 (map snd (favoriteRows st u))
        \<and> p2 = take 10 (drop 10 (map snd (favoriteRows st u)))
        \<and> p1 @ p2 = take 20 (map snd (favoriteRows st u))
        \<and> distinct (p1 @ p2))"
proof
  assume u: "favoritesUnique st"
  let ?all = "map snd (favoriteRows st u)"
  have d: "distinct ?all"
    by (rule favoriteRows_distinct [OF u])
  have p1: "listFavorites st u (Some 1) (Some 10) = Inr (take 10 ?all)"
    unfolding listFavorites_def pageParam_numerals
    by (simp add: paginate_def take_map)
  have p2: "listFavorites st u (Some 2) (Some 10) = Inr (take 10 (drop 10 ?all))"
    unfolding listFavorites_def pageParam_numerals
    by (simp add: paginate_def take_map drop_map)
  have both: "take 10 ?all @ take 10 (drop 10 ?all) = take 20 ?all"
    using take_add [of 10 10 ?all] by simp
  have "set (take 10 ?all) \<inter> set (drop 10 ?all) = {}"
    by (rule set_take_disj_set_drop_if_distinct [OF d]) simp
  moreover have "set (take 10 (drop 10 ?all)) \<subseteq> set (drop 10 ?all)"
    by (rule set_take_subset)
  ultimately have disj: "set (take 10 ?all) \<inter> set (take 10 (drop 10 ?all)) = {}"
    by blast
  have dist: "distinct (take 10 ?all @ take 10 (drop 10 ?all))"
    unfolding both using d by (rule distinct_take)
  have len: "length (take 10 ?all) \<le> 10"
    by simp
  from p1 p2 len disj both dist
  show "\<exists>p1 p2. listFavorites st u (Some 1) (Some 10) = Inr p1
        \<and> listFavorites st u (Some 2) (Some 10) = Inr p2
        \<and> length p1 \<le> 10
        \<and> set p1 \<inter> set p2 = {}
        \<and> p1 = take 10 (map snd (favoriteRows st u))
        \<and> p2 = take 10 (drop 10 (map snd (favoriteRows st u)))
        \<and> p1 @ p2 = take 20 (map snd (favoriteRows st u))
        \<and> distinct (p1 @ p2)"
    by blast
qed

lemma twelveFavorites_page1:
  "listFavorites twelveFavorites 1 (Some 1) (Some 10)
     = Inr (map (\<lambda>n. sampleRecipe (recipeName n)) [12, 11, 10, 9, 8, 7, 6, 5, 4, 3])"
  by code_simp

lemma twelveFavorites_page2:
  "listFavorites twelveFavorites 1 (Some 2) (Some 10)
     = Inr (map (\<lambda>n. sampleRecipe (recipeName n)) [2, 1])"
  by code_simp

lemma twelveFavorites_unique: "favoritesUnique twelveFavorites"
  by code_simp

theorem listFavorites_pages_witness:
  "favoritesUnique twelveFavorites
   \<and> listFavorites twelveFavorites 1 (Some 1) (Some 10)
       = Inr (map (\<lambda>n. sampleRecipe (recipeName n)) [12, 11, 10, 9, 8, 7, 6, 5, 4, 3])
   \<and> listFavorites twelveFavorites 1 (Some 2) (Some 10)
       = Inr (map (\<lambda>n. sampleRecipe (recipeName n)) [2, 1])
   \<and> set (map (\<lambda>n. sampleRecipe (recipeName n)) [12, 11, 10, 9, 8, 7, 6, 5, 4, 3])
       \<inter> set (map (\<lambda>n. sampleRecipe (recipeName n)) [2, 1]) = {}"
  using listFavorites_pages [of twelveFavorites 1]
    twelveFavorites_unique twelveFavorites_page1 twelveFavorites_page2
  by (metis sum.inject(2))

end

